theory Spec2Isabelle
  imports Main "HOL-Library.Multiset"
begin

section \<open>The scan event dispatcher of bbot (\<^verbatim>\<open>bbot/scanner/manager.py\<close>, class ScanManager)\<close>

text \<open>
  Events and modules are Python objects that the dispatcher shares with the modules and
  mutates in place; an event points to its parent through \<^verbatim>\<open>event.source\<close>. The model
  therefore keeps two stores, from references (natural numbers) to records, and every
  method of \<^verbatim>\<open>ScanManager\<close> is a function from the state before the call to the state
  after it. A Python reference always points to an object, so the stores are total.
\<close>

type_synonym event_ref = nat
type_synonym module_ref = nat

subsection \<open>Data model\<close>

text \<open>
  The attributes of an event that \<^verbatim>\<open>manager.py\<close> reads or writes. The class
  \<^verbatim>\<open>Event\<close> is missing from the source file. Its \<^verbatim>\<open>scope_distance\<close> and
  \<^verbatim>\<open>module_priority\<close> are properties: what an assignment to one of them stores is
  decided by the setter of the class, and the two setters are parameters of the scan
  below. A scope distance of \<^verbatim>\<open>-1\<close> stands for "not set" (line 304 tests
  \<^verbatim>\<open>-1 < event.scope_distance\<close>). The other attributes are plain fields.
  \<^verbatim>\<open>_dummy\<close> and \<^verbatim>\<open>_graph_important\<close> lose their underscore; \<^verbatim>\<open>scan_set\<close> records that
  \<^verbatim>\<open>event.scan\<close> has been assigned (there is one scan).
\<close>

record event =
  type :: string
  data :: string
  source :: "event_ref option"
  module :: "module_ref option"
  scope_distance :: int
  web_spider_distance :: int
  internal :: bool
  tags :: "string set"
  host :: "string option"
  dummy :: bool
  graph_important :: bool
  always_emit :: bool
  quick_emit :: bool
  module_priority :: int
  scan_set :: bool

text \<open>
  The module contract. \<^verbatim>\<open>suppress_dupes\<close> and \<^verbatim>\<open>_outgoing_dedup_hash\<close> are optional
  attributes (the code reads them with \<^verbatim>\<open>getattr\<close> and under \<^verbatim>\<open>except AttributeError\<close>);
  \<^verbatim>\<open>_is_graph_important\<close> is the module's own predicate on the event.
\<close>

record module =
  name :: string
  priority :: int
  hook :: bool
  first :: bool
  suppress_dupes :: "bool option"
  accept_dupes :: bool
  outgoing_dedup_hash :: "(event \<Rightarrow> int) option"
  is_graph_important :: "event \<Rightarrow> bool"

datatype exn = AttributeError | ValidationError | OtherError string

text \<open>The Python values a user callback may return.\<close>

datatype pyval = PyNone | PyBool bool | PyInt int | PyStr string | PyTuple "pyval list"

text \<open>
  A user callback (\<^verbatim>\<open>abort_if\<close>, \<^verbatim>\<open>on_success_callback\<close>) receives the event and may
  mutate events ("so it can add tags, etc."); it returns a value or raises. Synchronous
  and asynchronous callables are both run to completion by
  \<^verbatim>\<open>helpers.execute_sync_or_async\<close>, so one function type stands for both.
\<close>

type_synonym callback =
  "(event_ref \<Rightarrow> event) \<Rightarrow> event_ref \<Rightarrow> (event_ref \<Rightarrow> event) \<times> (exn + pyval)"

record kwargs =
  abort_if :: "callback option"
  on_success_callback :: "callback option"
  quick :: bool

definition no_kwargs :: kwargs where
  "no_kwargs = \<lparr>abort_if = None, on_success_callback = None, quick = False\<rparr>"

datatype level = Debug | Verbose | Warning

datatype message =
    CannotEmitDummy event_ref
  | SkippingSelfSource event_ref
  | SkippingAlreadyEmitted event_ref
  | ModuleRaised event_ref
  | QuickEmitting event_ref
  | Emitting event_ref
  | OmittingBlacklisted event_ref
  | MakingInScope event_ref
  | NotRaising event_ref "pyval option"
  | EmitFinished event_ref
  | MakingInternal event_ref
  | Requeuing event_ref event_ref
  | DuplicateEvent event_ref
  | Target event_ref

text \<open>
  The scan collaborator, read-only for the dispatcher: the values of the
  \<^verbatim>\<open>scan.modules\<close> dictionary in its order, the report distance, the whitelist and
  blacklist predicates, the root event and the target's events.

  \<^item> \<^verbatim>\<open>canon_hash\<close>: Modelled from the spec: \<^verbatim>\<open>Event.__hash__\<close> is missing from the
    source file; "two events are equal iff a canonical hash of (type, data) matches".
  \<^item> \<^verbatim>\<open>hash_tuple\<close>: Python's built-in hash of the pair (event, module name), a
    parameter.
  \<^item> \<^verbatim>\<open>dummy_module\<close>: Modelled from the spec: \<^verbatim>\<open>scan._make_dummy_module\<close> is missing
    from the source file; it gives the "TARGET" synthetic module for seeds.
  \<^item> \<^verbatim>\<open>scope_distance_setter\<close>: the setter of \<^verbatim>\<open>Event.scope_distance\<close>, a parameter.
    From the events as they are, the event assigned to and the value assigned, it gives
    the scope distance of every event after the assignment (the setter may reach other
    events than the one assigned to, but it writes scope distances only).
  \<^item> \<^verbatim>\<open>module_priority_setter\<close>: the setter of \<^verbatim>\<open>Event.module_priority\<close>, a parameter:
    the priority stored when a value is assigned.
\<close>

record scan =
  modules :: "module_ref list"
  scope_report_distance :: int
  whitelisted :: "event \<Rightarrow> bool"
  blacklisted :: "event \<Rightarrow> bool"
  root_event :: event_ref
  target_events :: "event_ref list"
  canon_hash :: "string \<Rightarrow> string \<Rightarrow> int"
  hash_tuple :: "int \<Rightarrow> string \<Rightarrow> int"
  dummy_module :: module_ref
  scope_distance_setter :: "(event_ref \<Rightarrow> event) \<Rightarrow> event_ref \<Rightarrow> int \<Rightarrow> event_ref \<Rightarrow> int"
  module_priority_setter :: "int \<Rightarrow> int"

text \<open>
  The state: the two object stores, the attributes of the manager
  (\<^verbatim>\<open>incoming_event_queue\<close>, the two trackers, the cached \<^verbatim>\<open>_modules_by_priority\<close> and
  \<^verbatim>\<open>_hook_modules\<close>), and what the collaborators have received: the events pushed into
  module sinks, the events absorbed by the word cloud, the log, and the scan's
  \<^verbatim>\<open>_finished_init\<close> flag. The shared ingress is a ShuffleQueue, which inserts at a
  random position: it is a multiset here, its content without an order.
\<close>

record state =
  events :: "event_ref \<Rightarrow> event"
  mods :: "module_ref \<Rightarrow> module"
  incoming_event_queue :: "(event_ref \<times> kwargs) multiset"
  incoming_dup_tracker :: "int set"
  outgoing_dup_tracker :: "int set"
  modules_by_priority_cache :: "module_ref list option"
  hook_modules_cache :: "module_ref list option"
  delivered :: "(module_ref \<times> event_ref) list"
  word_cloud :: "event_ref list"
  log :: "(level \<times> message) list"
  finished_init :: bool

definition upd_event :: "event_ref \<Rightarrow> (event \<Rightarrow> event) \<Rightarrow> state \<Rightarrow> state" where
  "upd_event ev f s = s\<lparr>events := (events s)(ev := f (events s ev))\<rparr>"

text \<open>\<^verbatim>\<open>event.scope_distance = v\<close> and \<^verbatim>\<open>event.module_priority = p\<close>, through the setters.\<close>

definition set_scope_distance :: "scan \<Rightarrow> event_ref \<Rightarrow> int \<Rightarrow> state \<Rightarrow> state" where
  "set_scope_distance sc ev v s =
     s\<lparr>events := (\<lambda>r. (events s r)\<lparr>scope_distance :=
                          scope_distance_setter sc (events s) ev v r\<rparr>)\<rparr>"

definition set_module_priority :: "scan \<Rightarrow> event_ref \<Rightarrow> int \<Rightarrow> state \<Rightarrow> state" where
  "set_module_priority sc ev p s =
     upd_event ev (\<lambda>e. e\<lparr>module_priority := module_priority_setter sc p\<rparr>) s"

definition upd_module :: "module_ref \<Rightarrow> (module \<Rightarrow> module) \<Rightarrow> state \<Rightarrow> state" where
  "upd_module m f s = s\<lparr>mods := (mods s)(m := f (mods s m))\<rparr>"

definition logmsg :: "level \<Rightarrow> message \<Rightarrow> state \<Rightarrow> state" where
  "logmsg lvl msg s = s\<lparr>log := log s @ [(lvl, msg)]\<rparr>"

text \<open>\<^verbatim>\<open>await mod.queue_event(event)\<close>: the sink of a module, an external collaborator.\<close>

definition module_queue_event :: "module_ref \<Rightarrow> event_ref \<Rightarrow> state \<Rightarrow> state" where
  "module_queue_event m ev s = s\<lparr>delivered := delivered s @ [(m, ev)]\<rparr>"

text \<open>\<^verbatim>\<open>hash(event)\<close>, the canonical identity.\<close>

definition hash_event :: "scan \<Rightarrow> event \<Rightarrow> int" where
  "hash_event sc e = canon_hash sc (type e) (data e)"

text \<open>
  Modelled from the spec: \<^verbatim>\<open>Event.__eq__\<close> is missing from the source file; two events
  are equal iff their canonical hashes match.
\<close>

definition event_eq :: "scan \<Rightarrow> event \<Rightarrow> event \<Rightarrow> bool" where
  "event_eq sc a b = (hash_event sc a = hash_event sc b)"

text \<open>
  Modelled from the spec: \<^verbatim>\<open>Event.get_source\<close> is missing from the source file; the
  precheck compares the event with \<^verbatim>\<open>event.source\<close>.
\<close>

definition get_source :: "state \<Rightarrow> event_ref \<Rightarrow> event_ref option" where
  "get_source s ev = source (events s ev)"

subsection \<open>queue\_event (lines 389-398)\<close>

text \<open>
  The argument is \<^verbatim>\<open>None\<close> or an event object (taken as truthy). With an event whose
  \<^verbatim>\<open>source\<close> is \<^verbatim>\<open>None\<close>, \<^verbatim>\<open>event.source.scope_distance\<close> raises AttributeError
  after the priority has been changed: the function returns the exception, if any, and
  the state reached.
\<close>

definition queue_event :: "scan \<Rightarrow> state \<Rightarrow> event_ref option \<Rightarrow> kwargs \<Rightarrow> exn option \<times> state" where
  "queue_event sc s event kw =
     (case event of
        None \<Rightarrow> (None, s)
      | Some ev \<Rightarrow>
          (let s1 =
             (if scope_distance (events s ev) > 0
              then (let event_in_scope =
                          whitelisted sc (events s ev) \<and> \<not> blacklisted sc (events s ev)
                    in if \<not> event_in_scope
                       then set_module_priority sc ev
                              (module_priority (events s ev) + scope_distance (events s ev)) s
                       else s)
              else s)
           in case source (events s1 ev) of
                None \<Rightarrow> (Some AttributeError, s1)
              | Some src \<Rightarrow>
                  (let s2 = set_scope_distance sc ev (scope_distance (events s1 src) + 1) s1
                   in (None, s2\<lparr>incoming_event_queue :=
                                   add_mset (ev, kw) (incoming_event_queue s2)\<rparr>))))"

subsection \<open>The dedup trackers (lines 244-272)\<close>

text \<open>
  \<^verbatim>\<open>is_incoming_duplicate\<close>. When the event has no module, or the module has no
  \<^verbatim>\<open>_outgoing_dedup_hash\<close>, the attribute access raises AttributeError and the hash of
  the pair (event, \<^verbatim>\<open>str(module)\<close>) is used; \<^verbatim>\<open>str(None)\<close> is \<^verbatim>\<open>"None"\<close> and the string
  of a module is its name.
\<close>

definition is_incoming_duplicate :: "scan \<Rightarrow> state \<Rightarrow> event_ref \<Rightarrow> bool \<Rightarrow> bool \<times> state" where
  "is_incoming_duplicate sc s ev add =
     (let event_hash =
            (case module (events s ev) of
               None \<Rightarrow> hash_tuple sc (hash_event sc (events s ev)) ''None''
             | Some m \<Rightarrow>
                 (case outgoing_dedup_hash (mods s m) of
                    Some f \<Rightarrow> f (events s ev)
                  | None \<Rightarrow> hash_tuple sc (hash_event sc (events s ev)) (name (mods s m))));
          is_dup = (event_hash \<in> incoming_dup_tracker s);
          s1 = (if add
                then s\<lparr>incoming_dup_tracker := insert event_hash (incoming_dup_tracker s)\<rparr>
                else s);
          suppress =
            (case module (events s1 ev) of
               None \<Rightarrow> True
             | Some m \<Rightarrow> (case suppress_dupes (mods s1 m) of None \<Rightarrow> True | Some b \<Rightarrow> b))
      in if suppress \<and> is_dup then (True, s1) else (False, s1))"

definition is_outgoing_duplicate :: "scan \<Rightarrow> state \<Rightarrow> event_ref \<Rightarrow> bool \<Rightarrow> bool \<times> state" where
  "is_outgoing_duplicate sc s ev add =
     (let event_hash = hash_event sc (events s ev);
          is_dup = (event_hash \<in> outgoing_dup_tracker s);
          s1 = (if add
                then s\<lparr>outgoing_dup_tracker := insert event_hash (outgoing_dup_tracker s)\<rparr>
                else s)
      in (is_dup, s1))"

subsection \<open>\_event\_precheck (lines 148-163)\<close>

definition event_precheck :: "scan \<Rightarrow> state \<Rightarrow> event_ref \<Rightarrow> bool \<times> state" where
  "event_precheck sc s ev =
     (if dummy (events s ev) then (False, logmsg Warning (CannotEmitDummy ev) s)
      else if (case get_source s ev of
                 None \<Rightarrow> False
               | Some src \<Rightarrow> event_eq sc (events s ev) (events s src))
      then (False, logmsg Debug (SkippingSelfSource ev) s)
      else if graph_important (events s ev) then (True, s)
      else (case is_incoming_duplicate sc s ev True of
              (True, s1) \<Rightarrow> (False, logmsg Debug (SkippingAlreadyEmitted ev) s1)
            | (False, s1) \<Rightarrow> (True, s1)))"

subsection \<open>distribute\_event (lines 274-314)\<close>

text \<open>Lines 279-286: make the event internal if it is above the report distance.\<close>

definition report_distance_internalization :: "scan \<Rightarrow> state \<Rightarrow> event_ref \<Rightarrow> state" where
  "report_distance_internalization sc s ev =
     (let event_in_report_distance = (scope_distance (events s ev) \<le> scope_report_distance sc);
          event_will_be_output = (always_emit (events s ev) \<or> event_in_report_distance)
      in if \<not> event_will_be_output
         then upd_event ev (\<lambda>e. e\<lparr>internal := True\<rparr>) (logmsg Debug (MakingInternal ev) s)
         else s)"

text \<open>
  Lines 288-298: preserve the chain of parents. \<^verbatim>\<open>source.internal\<close> raises
  AttributeError when the event has no source, and so does the \<^verbatim>\<open>queue_event\<close> of a
  source that has none.
\<close>

definition ancestor_promotion :: "scan \<Rightarrow> state \<Rightarrow> event_ref \<Rightarrow> exn option \<times> state" where
  "ancestor_promotion sc s ev =
     (case source (events s ev) of
        None \<Rightarrow> (Some AttributeError, s)
      | Some src \<Rightarrow>
          if internal (events s src) \<and>
             (\<not> internal (events s ev) \<or> graph_important (events s ev))
          then (let source_in_report_distance =
                      (scope_distance (events s src) \<le> scope_report_distance sc);
                    s1 = (if source_in_report_distance
                          then upd_event src (\<lambda>e. e\<lparr>internal := False\<rparr>) s
                          else s)
                in if \<not> graph_important (events s1 src)
                   then (let s2 = upd_event src (\<lambda>e. e\<lparr>graph_important := True\<rparr>) s1;
                             s3 = logmsg Debug (Requeuing src ev) s2
                         in queue_event sc s3 (Some src) no_kwargs)
                   else (None, s1))
          else (None, s))"

text \<open>Lines 306-314: the loop over \<^verbatim>\<open>scan.modules.values()\<close>.\<close>

fun fan_out :: "bool \<Rightarrow> event_ref \<Rightarrow> module_ref list \<Rightarrow> state \<Rightarrow> state" where
  "fan_out is_dup ev [] s = s"
| "fan_out is_dup ev (m # ms) s =
     (if hook (mods s m) then fan_out is_dup ev ms s
      else (let acceptable_dup = (\<not> is_dup \<or> accept_dupes (mods s m));
                graph_imp = is_graph_important (mods s m) (events s ev)
            in if acceptable_dup \<or> graph_imp
               then fan_out is_dup ev ms (module_queue_event m ev s)
               else fan_out is_dup ev ms s))"

text \<open>
  The body of \<^verbatim>\<open>distribute_event\<close>, with the exception that leaves it, if any.
  \<^verbatim>\<open>is_outgoing_duplicate\<close> is called without \<^verbatim>\<open>add\<close>, whose default is \<^verbatim>\<open>False\<close>.
\<close>

definition distribute_event_body :: "scan \<Rightarrow> state \<Rightarrow> event_ref \<Rightarrow> exn option \<times> state" where
  "distribute_event_body sc s ev =
     (let s1 = report_distance_internalization sc s ev
      in case ancestor_promotion sc s1 ev of
           (Some x, s2) \<Rightarrow> (Some x, s2)
         | (None, s2) \<Rightarrow>
             (case is_outgoing_duplicate sc s2 ev False of
                (is_dup, s3) \<Rightarrow>
                  (let s4 = (if is_dup then logmsg Verbose (DuplicateEvent ev) s3 else s3);
                       s5 = (if \<not> is_dup \<and> - 1 < scope_distance (events s4 ev)
                                \<and> scope_distance (events s4 ev) < 1
                             then s4\<lparr>word_cloud := word_cloud s4 @ [ev]\<rparr>
                             else s4)
                   in (None, fan_out is_dup ev (modules sc) s5))))"

text \<open>
  Modelled from the spec: \<^verbatim>\<open>scan._acatch\<close> is missing from the source file; it is a
  "scoped failure suppression", so the exception is dropped and the state reached is
  kept.
\<close>

definition acatch :: "exn option \<times> state \<Rightarrow> state" where
  "acatch r = snd r"

definition distribute_event :: "scan \<Rightarrow> state \<Rightarrow> event_ref \<Rightarrow> state" where
  "distribute_event sc s ev = acatch (distribute_event_body sc s ev)"

subsection \<open>\_emit\_event, the slow path (lines 165-242)\<close>

text \<open>Truthiness of a Python value, and of \<^verbatim>\<open>event.host\<close>.\<close>

fun truthy :: "pyval \<Rightarrow> bool" where
  "truthy PyNone = False"
| "truthy (PyBool b) = b"
| "truthy (PyInt i) = (i \<noteq> 0)"
| "truthy (PyStr cs) = (cs \<noteq> [])"
| "truthy (PyTuple vs) = (vs \<noteq> [])"

definition truthy_host :: "string option \<Rightarrow> bool" where
  "truthy_host h = (case h of None \<Rightarrow> False | Some cs \<Rightarrow> cs \<noteq> [])"

text \<open>
  \<^verbatim>\<open>abort_result, reason = abort_result\<close> under \<^verbatim>\<open>suppress(ValueError, TypeError)\<close>:
  a sequence of two elements unpacks; anything else raises one of the two suppressed
  exceptions before anything is assigned (\<^verbatim>\<open>None\<close> here).
\<close>

fun unpack_pair :: "pyval \<Rightarrow> (pyval \<times> pyval) option" where
  "unpack_pair (PyTuple [a, b]) = Some (a, b)"
| "unpack_pair (PyStr [c, d]) = Some (PyStr [c], PyStr [d])"
| "unpack_pair v = None"

text \<open>\<^verbatim>\<open>await helpers.execute_sync_or_async(callback, event)\<close>.\<close>

definition run_callback :: "callback \<Rightarrow> event_ref \<Rightarrow> state \<Rightarrow> (exn + pyval) \<times> state" where
  "run_callback f ev s = (case f (events s) ev of (heap, r) \<Rightarrow> (r, s\<lparr>events := heap\<rparr>))"

text \<open>
  Lines 230-235: the success callback, inside \<^verbatim>\<open>_acatch\<close> (its exception, if any, is
  dropped), then the distributor.
\<close>

definition success_then_distribute :: "scan \<Rightarrow> state \<Rightarrow> event_ref \<Rightarrow> kwargs \<Rightarrow> state" where
  "success_then_distribute sc s ev kw =
     (let s1 = (case on_success_callback kw of
                  None \<Rightarrow> s
                | Some g \<Rightarrow> snd (run_callback g ev s))
      in distribute_event sc s1 ev)"

text \<open>
  Lines 219-228: \<^verbatim>\<open>abort_result\<close> starts as \<^verbatim>\<open>False\<close> and keeps that value when the
  callback raises inside \<^verbatim>\<open>_acatch\<close>. The result is the value tested by
  \<^verbatim>\<open>if abort_result\<close>, the reason appended to the message (if the unpacking succeeded)
  and the state after the callback.
\<close>

definition abort_evaluation :: "callback \<Rightarrow> event_ref \<Rightarrow> state \<Rightarrow> pyval \<times> pyval option \<times> state" where
  "abort_evaluation f ev s =
     (case run_callback f ev s of
        (r, s1) \<Rightarrow>
          (let abort_result = (case r of Inl x \<Rightarrow> PyBool False | Inr v \<Rightarrow> v)
           in case unpack_pair abort_result of
                Some (a, reason) \<Rightarrow> (a, Some reason, s1)
              | None \<Rightarrow> (abort_result, None, s1)))"

text \<open>
  Lines 210-215, scope shepherding: an event with a host that matches the whitelist is
  made in-scope.
\<close>

definition scope_shepherding :: "scan \<Rightarrow> state \<Rightarrow> event_ref \<Rightarrow> state" where
  "scope_shepherding sc s ev =
     (let event_whitelisted = whitelisted sc (events s ev)
      in if truthy_host (host (events s ev)) \<and> event_whitelisted
         then set_scope_distance sc ev 0 (logmsg Debug (MakingInScope ev) s)
         else s)"

text \<open>
  Lines 217-235: the abort check, which returns from the function when the result is
  truthy, then the success callback and the distributor.
\<close>

definition abort_then_distribute :: "scan \<Rightarrow> state \<Rightarrow> event_ref \<Rightarrow> kwargs \<Rightarrow> state" where
  "abort_then_distribute sc s ev kw =
     (case abort_if kw of
        None \<Rightarrow> success_then_distribute sc s ev kw
      | Some f \<Rightarrow>
          (case abort_evaluation f ev s of
             (abort_result, reason, s1) \<Rightarrow>
               if truthy abort_result
               then logmsg Verbose (NotRaising ev reason) s1
               else success_then_distribute sc s1 ev kw))"

text \<open>
  The \<^verbatim>\<open>try\<close> block and the \<^verbatim>\<open>finally\<close> clause. The whitelist and blacklist
  predicates are total here, so no ValidationError reaches the \<^verbatim>\<open>except\<close> clause.
\<close>

definition emit_event_slow :: "scan \<Rightarrow> state \<Rightarrow> event_ref \<Rightarrow> kwargs \<Rightarrow> state" where
  "emit_event_slow sc s ev kw =
     (let s0 = logmsg Debug (Emitting ev) s;
          event_blacklisted = blacklisted sc (events s0 ev);
          s9 = (if event_blacklisted \<or> ''blacklisted'' \<in> tags (events s0 ev)
                then logmsg Debug (OmittingBlacklisted ev) s0
                else abort_then_distribute sc (scope_shepherding sc s0 ev) ev kw)
      in logmsg Debug (EmitFinished ev) s9)"

subsection \<open>emit\_event (lines 112-146)\<close>

definition emit_event :: "scan \<Rightarrow> state \<Rightarrow> event_ref \<Rightarrow> kwargs \<Rightarrow> state" where
  "emit_event sc s ev kw =
     (let callbacks_requested = (abort_if kw \<noteq> None \<or> on_success_callback kw \<noteq> None);
          quick_kwarg = quick kw;
          quick_event = quick_emit (events s ev);
          quick_path = ((quick_kwarg \<or> quick_event) \<and> \<not> callbacks_requested)
      in case event_precheck sc s ev of
           (acceptable, s1) \<Rightarrow>
             if \<not> acceptable then s1
             else (let s2 = logmsg Debug (ModuleRaised ev) s1
                   in if quick_path
                      then distribute_event sc (logmsg Debug (QuickEmitting ev) s2) ev
                      else emit_event_slow sc s2 ev kw))"

subsection \<open>The cached module lists (lines 326-366)\<close>

definition modules_by_priority :: "scan \<Rightarrow> state \<Rightarrow> module_ref list \<times> state" where
  "modules_by_priority sc s =
     (let recompute = (case modules_by_priority_cache s of
                         None \<Rightarrow> True
                       | Some ms \<Rightarrow> ms = []);
          s1 = (if recompute
                then s\<lparr>modules_by_priority_cache :=
                         Some (sort_key (\<lambda>m. priority (mods s m)) (modules sc))\<rparr>
                else s)
      in (case modules_by_priority_cache s1 of None \<Rightarrow> [] | Some ms \<Rightarrow> ms, s1))"

definition hook_modules :: "scan \<Rightarrow> state \<Rightarrow> module_ref list \<times> state" where
  "hook_modules sc s =
     (case hook_modules_cache s of
        Some hm \<Rightarrow> (hm, s)
      | None \<Rightarrow>
          (case modules_by_priority sc s of
             (mbp, s1) \<Rightarrow>
               (let hm = filter (\<lambda>m. hook (mods s1 m)) mbp;
                    s2 = s1\<lparr>hook_modules_cache := Some hm\<rparr>;
                    s3 = (case hm of
                            [] \<Rightarrow> s2
                          | m # ms \<Rightarrow> upd_module m (\<lambda>x. x\<lparr>first := True\<rparr>) s2)
                in (hm, s3))))"

subsection \<open>init\_events, the seed step (lines 81-110)\<close>

text \<open>
  The body of the \<^verbatim>\<open>for\<close> loop, for the events still to seed. An exception leaves
  the loop (and the \<^verbatim>\<open>_acatch\<close> block around it).
\<close>

fun seed_events :: "scan \<Rightarrow> event_ref list \<Rightarrow> state \<Rightarrow> exn option \<times> state" where
  "seed_events sc [] s = (None, s)"
| "seed_events sc (ev # evs) s =
     (let s1 = upd_event ev (\<lambda>e. e\<lparr>dummy := False\<rparr>) s;
          s2 = set_scope_distance sc ev 0 s1;
          s3 = upd_event ev (\<lambda>e. e\<lparr>web_spider_distance := 0\<rparr>) s2;
          s4 = upd_event ev (\<lambda>e. e\<lparr>scan_set := True\<rparr>) s3;
          s5 = (if source (events s4 ev) = None
                then upd_event ev (\<lambda>e. e\<lparr>source := Some (root_event sc)\<rparr>) s4
                else s4);
          s6 = (if module (events s5 ev) = None
                then upd_event ev (\<lambda>e. e\<lparr>module := Some (dummy_module sc)\<rparr>) s5
                else s5);
          s7 = logmsg Verbose (Target ev) s6
      in case hook_modules sc s7 of
           (hm, s8) \<Rightarrow>
             if hm \<noteq> []
             then (case hook_modules sc s8 of
                     (hm2, s9) \<Rightarrow>
                       (case hm2 of
                          first_hook_module # rest \<Rightarrow>
                            seed_events sc evs (module_queue_event first_hook_module ev s9)
                        | [] \<Rightarrow> (Some (OtherError ''IndexError''), s9)))
             else (case queue_event sc s8 (Some ev) no_kwargs of
                     (Some x, s9) \<Rightarrow> (Some x, s9)
                   | (None, s9) \<Rightarrow> seed_events sc evs s9))"

definition init_events :: "scan \<Rightarrow> state \<Rightarrow> state" where
  "init_events sc s =
     (let sorted_events = sort_key (\<lambda>e. length (data (events s e))) (target_events sc)
      in case seed_events sc (root_event sc # sorted_events) s of
           (Some x, s1) \<Rightarrow> s1
         | (None, s1) \<Rightarrow> s1\<lparr>finished_init := True\<rparr>)"

subsection \<open>One iteration of the worker loop (lines 57-79)\<close>

text \<open>
  What the pickup of one iteration returned. The outgoing queues of the modules belong
  to the modules, and the weighted shuffle is random: the outcome of the pickup is an
  argument. An entry taken from the shared ingress leaves it.
\<close>

datatype pickup =
    QueueEmpty
  | FromIngress event_ref kwargs
  | FromModule event_ref kwargs

definition worker_iteration :: "scan \<Rightarrow> state \<Rightarrow> pickup \<Rightarrow> state" where
  "worker_iteration sc s p =
     (case hook_modules sc s of
        (hm, s1) \<Rightarrow>
          (case p of
             QueueEmpty \<Rightarrow> s1
           | FromModule ev kw \<Rightarrow> emit_event sc s1 ev kw
           | FromIngress ev kw \<Rightarrow>
               if hm = [] \<and> (ev, kw) \<in># incoming_event_queue s1
               then emit_event sc
                      (s1\<lparr>incoming_event_queue := incoming_event_queue s1 - {#(ev, kw)#}\<rparr>)
                      ev kw
               else s1))"

subsection \<open>The operations of the dispatcher\<close>

datatype operation =
    InitEvents
  | EmitEvent event_ref kwargs
  | EventPrecheck event_ref
  | EmitEventSlow event_ref kwargs
  | IsIncomingDuplicate event_ref bool
  | IsOutgoingDuplicate event_ref bool
  | DistributeEvent event_ref
  | QueueEvent "event_ref option" kwargs
  | ModulesByPriority
  | HookModules
  | WorkerIteration pickup

fun run_operation :: "scan \<Rightarrow> state \<Rightarrow> operation \<Rightarrow> state" where
  "run_operation sc s InitEvents = init_events sc s"
| "run_operation sc s (EmitEvent ev kw) = emit_event sc s ev kw"
| "run_operation sc s (EventPrecheck ev) = snd (event_precheck sc s ev)"
| "run_operation sc s (EmitEventSlow ev kw) = emit_event_slow sc s ev kw"
| "run_operation sc s (IsIncomingDuplicate ev add) = snd (is_incoming_duplicate sc s ev add)"
| "run_operation sc s (IsOutgoingDuplicate ev add) = snd (is_outgoing_duplicate sc s ev add)"
| "run_operation sc s (DistributeEvent ev) = distribute_event sc s ev"
| "run_operation sc s (QueueEvent event kw) = snd (queue_event sc s event kw)"
| "run_operation sc s ModulesByPriority = snd (modules_by_priority sc s)"
| "run_operation sc s HookModules = snd (hook_modules sc s)"
| "run_operation sc s (WorkerIteration p) = worker_iteration sc s p"

text \<open>A run of the dispatcher: operations one after the other.\<close>

fun run_operations :: "scan \<Rightarrow> state \<Rightarrow> operation list \<Rightarrow> state" where
  "run_operations sc s [] = s"
| "run_operations sc s (op # ops) = run_operations sc (run_operation sc s op) ops"

subsection \<open>The specification's fingerprint of an event for its producer\<close>

text \<open>
  Section 4.1 of the specification: the incoming fingerprints are "keyed by (canonical
  event identity, producer module identity), or a producer-supplied custom key if the
  module overrides it", and the producer has \<^verbatim>\<open>suppress_dupes\<close> "default true". An
  event without a producer module is keyed with the string of \<^verbatim>\<open>None\<close>.
\<close>

definition per_producer_fingerprint :: "scan \<Rightarrow> state \<Rightarrow> event_ref \<Rightarrow> int" where
  "per_producer_fingerprint sc s ev =
     (case module (events s ev) of
        None \<Rightarrow> hash_tuple sc (hash_event sc (events s ev)) ''None''
      | Some m \<Rightarrow>
          (case outgoing_dedup_hash (mods s m) of
             Some custom_key \<Rightarrow> custom_key (events s ev)
           | None \<Rightarrow> hash_tuple sc (hash_event sc (events s ev)) (name (mods s m))))"

definition producer_suppress_dupes :: "state \<Rightarrow> event_ref \<Rightarrow> bool" where
  "producer_suppress_dupes s ev =
     (case module (events s ev) of
        None \<Rightarrow> True
      | Some m \<Rightarrow> suppress_dupes (mods s m) \<noteq> Some False)"

subsection \<open>Setters that only lower a scope distance\<close>

text \<open>
  Modelled from the spec: the class \<^verbatim>\<open>Event\<close> and its setters are missing from the
  source file. What the specification says of the scope distance under assignment: it is a
  non-negative hop count; a seed is "explicitly 0" and a whitelisted event is "forced to
  0", and both keep that distance when they are queued (Invariant 2, P3, S1). A setter
  that only lowers: a distance that is set is never raised by an assignment to any
  event and stays non-negative; a distance that is set or \<^verbatim>\<open>-1\<close> does not fall below
  \<^verbatim>\<open>-1\<close>; and assigning a non-negative value to an event stores that value if the
  distance was not set, and the smaller of the two otherwise.
\<close>

definition scope_distance_only_lowers :: "scan \<Rightarrow> bool" where
  "scope_distance_only_lowers sc \<longleftrightarrow>
     (\<forall>h ev v r. 0 \<le> scope_distance (h r) \<longrightarrow>
        0 \<le> scope_distance_setter sc h ev v r \<and>
        scope_distance_setter sc h ev v r \<le> scope_distance (h r)) \<and>
     (\<forall>h ev v r. - 1 \<le> scope_distance (h r) \<longrightarrow>
        - 1 \<le> scope_distance_setter sc h ev v r) \<and>
     (\<forall>h ev v. 0 \<le> v \<and> - 1 \<le> scope_distance (h ev) \<longrightarrow>
        scope_distance_setter sc h ev v ev =
          (if scope_distance (h ev) = - 1 then v else min (scope_distance (h ev)) v))"

subsection \<open>A concrete scan\<close>

text \<open>
  Modelled from the spec: the setters of the concrete scan (scope distances are
  non-negative hop counts that a seed or a whitelisted event keeps at 0; priorities
  are in 1..5). The scope distance of the event assigned to is
  lowered to a non-negative value assigned (or set to it, when it was \<^verbatim>\<open>-1\<close>) and never
  raised; a priority is kept between 1 and 5.
\<close>

definition lowering_setter :: "(event_ref \<Rightarrow> event) \<Rightarrow> event_ref \<Rightarrow> int \<Rightarrow> event_ref \<Rightarrow> int" where
  "lowering_setter h ev v r =
     (if r = ev \<and> 0 \<le> v
      then (if scope_distance (h ev) = - 1 then v else min (scope_distance (h ev)) v)
      else scope_distance (h r))"

definition clamp_priority :: "int \<Rightarrow> int" where
  "clamp_priority p = max 1 (min 5 p)"

text \<open>
  Four modules: a plain consumer, one that accepts duplicates, an output module whose
  \<^verbatim>\<open>_is_graph_important\<close> reads the event's flag, and a hook module; reference 9 is
  the TARGET module of the seeds.
\<close>

definition ex_module :: module where
  "ex_module = \<lparr>name = ''TARGET'', priority = 3, hook = False, first = False,
     suppress_dupes = None, accept_dupes = False, outgoing_dedup_hash = None,
     is_graph_important = (\<lambda>e. False)\<rparr>"

definition ex_mods :: "module_ref \<Rightarrow> module" where
  "ex_mods = (\<lambda>m. ex_module)
     (1 := ex_module\<lparr>name := ''dnsresolve''\<rparr>,
      2 := ex_module\<lparr>name := ''speculate'', accept_dupes := True\<rparr>,
      3 := ex_module\<lparr>name := ''json'', is_graph_important := graph_important\<rparr>,
      4 := ex_module\<lparr>name := ''hook'', priority := 1, hook := True\<rparr>)"

text \<open>
  The events, by reference: 0 the seed \<^verbatim>\<open>example.com\<close>, its own source; 1 an internal
  child at distance 1; 2 a graph-important grandchild; 3 and 4 two events of equal
  type and data raised by two modules; 5 an internal event at distance 1 whose source 6
  is at distance 3; 7 a graph-important child of 5; 8 an event at distance 2; 9 an
  internal whitelisted event at distance 0, a child of the seed; 10 a graph-important
  child of 9; 11 an internal event at distance 1 with priority 5, a child of the seed;
  12 a graph-important child of 11; 13 a child of the seed whose distance is not set.
\<close>

definition ex_event :: event where
  "ex_event = \<lparr>type = ''DNS_NAME'', data = ''example.com'', source = Some 0, module = Some 9,
     scope_distance = 0, web_spider_distance = 0, internal = False, tags = {},
     host = Some ''example.com'', dummy = False, graph_important = False,
     always_emit = False, quick_emit = False, module_priority = 3, scan_set = True\<rparr>"

definition ex_events :: "event_ref \<Rightarrow> event" where
  "ex_events = (\<lambda>r. ex_event)
     (1 := ex_event\<lparr>data := ''sub.example.com'', module := Some 1, scope_distance := 1,
            internal := True, host := Some ''sub.example.com''\<rparr>,
      2 := ex_event\<lparr>data := ''leaf.sub.example.com'', source := Some 1, module := Some 2,
            scope_distance := 1, host := Some ''leaf.sub.example.com'',
            graph_important := True\<rparr>,
      3 := ex_event\<lparr>data := ''login.example.org'', source := Some 1, module := Some 1,
            scope_distance := 1, host := Some ''login.example.org''\<rparr>,
      4 := ex_event\<lparr>data := ''login.example.org'', source := Some 1, module := Some 2,
            scope_distance := 1, host := Some ''login.example.org''\<rparr>,
      5 := ex_event\<lparr>data := ''far.example.org'', source := Some 6, module := Some 1,
            scope_distance := 1, internal := True, host := Some ''far.example.org''\<rparr>,
      6 := ex_event\<lparr>data := ''distant.example.net'', module := Some 1, scope_distance := 3,
            internal := True, host := Some ''distant.example.net''\<rparr>,
      7 := ex_event\<lparr>data := ''leaf.far.example.org'', source := Some 5, module := Some 2,
            scope_distance := 1, host := Some ''leaf.far.example.org'',
            graph_important := True\<rparr>,
      8 := ex_event\<lparr>data := ''mail.example.net'', source := Some 1, module := Some 1,
            scope_distance := 2, host := Some ''mail.example.net''\<rparr>,
      9 := ex_event\<lparr>type := ''URL'', data := ''http://example.com/'', module := Some 1,
            internal := True\<rparr>,
      10 := ex_event\<lparr>data := ''cdn.example.net'', source := Some 9, module := Some 2,
            scope_distance := 1, host := Some ''cdn.example.net'',
            graph_important := True\<rparr>,
      11 := ex_event\<lparr>data := ''low.example.net'', module := Some 1, scope_distance := 1,
            internal := True, host := Some ''low.example.net'', module_priority := 5\<rparr>,
      12 := ex_event\<lparr>data := ''deep.low.example.net'', source := Some 11, module := Some 2,
            scope_distance := 2, host := Some ''deep.low.example.net'',
            graph_important := True\<rparr>,
      13 := ex_event\<lparr>data := ''new.example.net'', module := Some 1, scope_distance := - 1,
            host := Some ''new.example.net''\<rparr>)"

definition ex_scan :: scan where
  "ex_scan = \<lparr>modules = [1, 2, 3, 4], scope_report_distance = 1,
     whitelisted = (\<lambda>e. host e = Some ''example.com''),
     blacklisted = (\<lambda>e. host e = Some ''evil.example.com''),
     root_event = 0, target_events = [],
     canon_hash = (\<lambda>t d. int (length t) * 100 + int (length d)),
     hash_tuple = (\<lambda>h n. h * 100 + int (length n)),
     dummy_module = 9, scope_distance_setter = lowering_setter,
     module_priority_setter = clamp_priority\<rparr>"

definition ex_state :: state where
  "ex_state = \<lparr>events = ex_events, mods = ex_mods, incoming_event_queue = {#},
     incoming_dup_tracker = {}, outgoing_dup_tracker = {},
     modules_by_priority_cache = None, hook_modules_cache = None, delivered = [],
     word_cloud = [], log = [], finished_init = True\<rparr>"

text \<open>The same state once the identity of \<^verbatim>\<open>leaf.sub.example.com\<close> is in the outgoing tracker.\<close>

definition ex_state_seen :: state where
  "ex_state_seen = ex_state\<lparr>outgoing_dup_tracker := {820}\<rparr>"

text \<open>An \<^verbatim>\<open>abort_if\<close> that vetoes with a reason, and the keyword arguments that carry it.\<close>

definition ex_abort_if :: callback where
  "ex_abort_if = (\<lambda>heap ev. (heap, Inr (PyTuple [PyBool True, PyStr ''user policy''])))"

definition ex_kwargs :: kwargs where
  "ex_kwargs = no_kwargs\<lparr>abort_if := Some ex_abort_if\<rparr>"

text \<open>An \<^verbatim>\<open>abort_if\<close> that raises, and one that answers \<^verbatim>\<open>(False, "fine")\<close>.\<close>

definition ex_abort_raises :: callback where
  "ex_abort_raises = (\<lambda>heap ev. (heap, Inl (OtherError ''RuntimeError'')))"

definition ex_abort_allows :: callback where
  "ex_abort_allows = (\<lambda>heap ev. (heap, Inr (PyTuple [PyBool False, PyStr ''fine''])))"

text \<open>
  A scan about to be seeded, without hook modules: the root event 0 and one target
  event 1 with data \<^verbatim>\<open>example.com\<close>, neither with a source or a module yet.
\<close>

definition seed_event :: event where
  "seed_event = \<lparr>type = ''DNS_NAME'', data = ''example.com'', source = None, module = None,
     scope_distance = - 1, web_spider_distance = 0, internal = False, tags = {},
     host = Some ''example.com'', dummy = True, graph_important = False,
     always_emit = False, quick_emit = False, module_priority = 3, scan_set = False\<rparr>"

definition seed_scan :: scan where
  "seed_scan = ex_scan\<lparr>modules := [1, 2, 3], target_events := [1]\<rparr>"

definition seed_state :: state where
  "seed_state = ex_state\<lparr>events := (\<lambda>r. seed_event)
     (0 := seed_event\<lparr>type := ''SCAN'', data := ''scan'', host := None\<rparr>)\<rparr>"

section \<open>Auxiliary facts\<close>

text \<open>
  What each step of the distributor, of the emit pipeline and of the seed step leaves
  unchanged, and what the promotion of a source does. The loop of the seed step is
  unfolded by hand where needed.
\<close>


lemmas helper_defs = upd_event_def upd_module_def logmsg_def module_queue_event_def
  set_scope_distance_def set_module_priority_def

lemma fan_out_eq:
  "fan_out d ev ms s = s\<lparr>delivered := delivered s @ map (\<lambda>m. (m, ev))
     (filter (\<lambda>m. \<not> hook (mods s m) \<and>
        (\<not> d \<or> accept_dupes (mods s m) \<or> is_graph_important (mods s m) (events s ev))) ms)\<rparr>"
  by (induction ms arbitrary: s) (auto simp: helper_defs Let_def)

lemma rdi_events:
  "events (report_distance_internalization sc s ev) =
     (events s)(ev := (events s ev)\<lparr>internal :=
        (internal (events s ev) \<or>
         \<not> (always_emit (events s ev) \<or> scope_distance (events s ev) \<le> scope_report_distance sc))\<rparr>)"
  by (auto simp: report_distance_internalization_def helper_defs Let_def)

lemma queue_event_internal:
  "internal (events (snd (queue_event sc s e kw)) r) = internal (events s r)"
  by (auto simp: queue_event_def helper_defs Let_def split: option.splits)

lemma ancestor_promotion_internal:
  assumes "source (events s ev) \<noteq> Some r"
  shows "internal (events (snd (ancestor_promotion sc s ev)) r) = internal (events s r)"
  using assms
  by (auto simp: ancestor_promotion_def queue_event_internal helper_defs Let_def split: option.splits)

lemma distribute_event_body_events:
  "events (snd (distribute_event_body sc s ev)) =
     events (snd (ancestor_promotion sc (report_distance_internalization sc s ev) ev))"
  by (auto simp: distribute_event_body_def is_outgoing_duplicate_def fan_out_eq logmsg_def Let_def
           split: option.splits prod.splits)

lemma queue_event_Some:
  assumes "source (events s ev) = Some src"
  shows "queue_event sc s (Some ev) kw =
     (None, (set_scope_distance sc ev (scope_distance (events s src) + 1)
               (if 0 < scope_distance (events s ev) \<and>
                   \<not> (whitelisted sc (events s ev) \<and> \<not> blacklisted sc (events s ev))
                then set_module_priority sc ev
                       (module_priority (events s ev) + scope_distance (events s ev)) s
                else s))
            \<lparr>incoming_event_queue := add_mset (ev, kw) (incoming_event_queue s)\<rparr>)"
  using assms by (auto simp: queue_event_def helper_defs Let_def)

lemma queue_event_graph_important:
  "graph_important (events (snd (queue_event sc s e kw)) r) = graph_important (events s r)"
  by (auto simp: queue_event_def helper_defs Let_def split: option.splits)

lemma queue_event_source:
  "source (events (snd (queue_event sc s e kw)) r) = source (events s r)"
  by (auto simp: queue_event_def helper_defs Let_def split: option.splits)

lemma queue_event_frame:
  "mods (snd (queue_event sc s e kw)) = mods s"
  "incoming_dup_tracker (snd (queue_event sc s e kw)) = incoming_dup_tracker s"
  "outgoing_dup_tracker (snd (queue_event sc s e kw)) = outgoing_dup_tracker s"
  "delivered (snd (queue_event sc s e kw)) = delivered s"
  "word_cloud (snd (queue_event sc s e kw)) = word_cloud s"
  "modules_by_priority_cache (snd (queue_event sc s e kw)) = modules_by_priority_cache s"
  "hook_modules_cache (snd (queue_event sc s e kw)) = hook_modules_cache s"
  "log (snd (queue_event sc s e kw)) = log s"
  "finished_init (snd (queue_event sc s e kw)) = finished_init s"
  by (auto simp: queue_event_def helper_defs Let_def split: option.splits)

lemma queue_event_hash:
  "hash_event sc (events (snd (queue_event sc s e kw)) r) = hash_event sc (events s r)"
  by (auto simp: queue_event_def hash_event_def helper_defs Let_def split: option.splits)

lemma rdi_frame:
  "mods (report_distance_internalization sc s ev) = mods s"
  "incoming_event_queue (report_distance_internalization sc s ev) = incoming_event_queue s"
  "incoming_dup_tracker (report_distance_internalization sc s ev) = incoming_dup_tracker s"
  "outgoing_dup_tracker (report_distance_internalization sc s ev) = outgoing_dup_tracker s"
  "delivered (report_distance_internalization sc s ev) = delivered s"
  "word_cloud (report_distance_internalization sc s ev) = word_cloud s"
  "modules_by_priority_cache (report_distance_internalization sc s ev) = modules_by_priority_cache s"
  "hook_modules_cache (report_distance_internalization sc s ev) = hook_modules_cache s"
  "finished_init (report_distance_internalization sc s ev) = finished_init s"
  by (auto simp: report_distance_internalization_def helper_defs Let_def)

lemma ancestor_promotion_frame:
  "mods (snd (ancestor_promotion sc s ev)) = mods s"
  "incoming_dup_tracker (snd (ancestor_promotion sc s ev)) = incoming_dup_tracker s"
  "outgoing_dup_tracker (snd (ancestor_promotion sc s ev)) = outgoing_dup_tracker s"
  "delivered (snd (ancestor_promotion sc s ev)) = delivered s"
  "word_cloud (snd (ancestor_promotion sc s ev)) = word_cloud s"
  "modules_by_priority_cache (snd (ancestor_promotion sc s ev)) = modules_by_priority_cache s"
  "hook_modules_cache (snd (ancestor_promotion sc s ev)) = hook_modules_cache s"
  "finished_init (snd (ancestor_promotion sc s ev)) = finished_init s"
  by (auto simp: ancestor_promotion_def queue_event_frame helper_defs Let_def split: option.splits)

lemma ancestor_promotion_hash:
  "hash_event sc (events (snd (ancestor_promotion sc s ev)) r) = hash_event sc (events s r)"
  by (auto simp: ancestor_promotion_def queue_event_hash helper_defs Let_def split: option.splits)
     (auto simp: hash_event_def)

lemma rdi_hash:
  "hash_event sc (events (report_distance_internalization sc s ev) r) = hash_event sc (events s r)"
  by (auto simp: rdi_events hash_event_def)

lemma ancestor_promotion_returns:
  assumes "source (events s ev) = Some src" and "source (events s src) \<noteq> None"
  shows "fst (ancestor_promotion sc s ev) = None"
  using assms
  by (auto simp: ancestor_promotion_def queue_event_def helper_defs Let_def split: option.splits)

lemma rdi_source:
  "source (events (report_distance_internalization sc s ev) r) = source (events s r)"
  by (simp add: rdi_events)

lemma distribute_event_body_unfold:
  assumes "ancestor_promotion sc (report_distance_internalization sc s ev) ev = (None, s2)"
  shows "distribute_event_body sc s ev =
     (None, fan_out (hash_event sc (events s2 ev) \<in> outgoing_dup_tracker s2) ev (modules sc)
        (let s4 = (if hash_event sc (events s2 ev) \<in> outgoing_dup_tracker s2
                   then logmsg Verbose (DuplicateEvent ev) s2 else s2)
         in if hash_event sc (events s2 ev) \<notin> outgoing_dup_tracker s2
               \<and> - 1 < scope_distance (events s2 ev) \<and> scope_distance (events s2 ev) < 1
            then s4\<lparr>word_cloud := word_cloud s4 @ [ev]\<rparr> else s4))"
  using assms
  by (simp add: distribute_event_body_def is_outgoing_duplicate_def Let_def logmsg_def)

lemma distribute_event_body_raises:
  assumes "ancestor_promotion sc (report_distance_internalization sc s ev) ev = (Some x, s2)"
  shows "distribute_event_body sc s ev = (Some x, s2)"
  using assms by (simp add: distribute_event_body_def)

lemma distribute_event_body_frame:
  "events (snd (distribute_event_body sc s ev)) =
     events (snd (ancestor_promotion sc (report_distance_internalization sc s ev) ev))"
  "mods (snd (distribute_event_body sc s ev)) = mods s"
  "incoming_event_queue (snd (distribute_event_body sc s ev)) =
     incoming_event_queue (snd (ancestor_promotion sc (report_distance_internalization sc s ev) ev))"
  "incoming_dup_tracker (snd (distribute_event_body sc s ev)) = incoming_dup_tracker s"
  "outgoing_dup_tracker (snd (distribute_event_body sc s ev)) = outgoing_dup_tracker s"
  "modules_by_priority_cache (snd (distribute_event_body sc s ev)) = modules_by_priority_cache s"
  "hook_modules_cache (snd (distribute_event_body sc s ev)) = hook_modules_cache s"
  "finished_init (snd (distribute_event_body sc s ev)) = finished_init s"
proof -
  let ?s1 = "report_distance_internalization sc s ev"
  obtain x s2 where ap: "ancestor_promotion sc ?s1 ev = (x, s2)"
    by (cases "ancestor_promotion sc ?s1 ev")
  have fr: "mods s2 = mods s" "incoming_dup_tracker s2 = incoming_dup_tracker s"
    "outgoing_dup_tracker s2 = outgoing_dup_tracker s"
    "modules_by_priority_cache s2 = modules_by_priority_cache s"
    "hook_modules_cache s2 = hook_modules_cache s" "finished_init s2 = finished_init s"
    using ancestor_promotion_frame [of sc ?s1 ev] by (simp_all add: ap rdi_frame)
  have body: "events (snd (distribute_event_body sc s ev)) = events s2 \<and>
     mods (snd (distribute_event_body sc s ev)) = mods s2 \<and>
     incoming_event_queue (snd (distribute_event_body sc s ev)) = incoming_event_queue s2 \<and>
     incoming_dup_tracker (snd (distribute_event_body sc s ev)) = incoming_dup_tracker s2 \<and>
     outgoing_dup_tracker (snd (distribute_event_body sc s ev)) = outgoing_dup_tracker s2 \<and>
     modules_by_priority_cache (snd (distribute_event_body sc s ev)) = modules_by_priority_cache s2 \<and>
     hook_modules_cache (snd (distribute_event_body sc s ev)) = hook_modules_cache s2 \<and>
     finished_init (snd (distribute_event_body sc s ev)) = finished_init s2"
    by (cases x)
       (simp_all add: distribute_event_body_def ap is_outgoing_duplicate_def fan_out_eq
          logmsg_def Let_def)
  show "events (snd (distribute_event_body sc s ev)) = events (snd (ancestor_promotion sc ?s1 ev))"
    using body by (simp add: ap)
  show "mods (snd (distribute_event_body sc s ev)) = mods s"
    using body fr by simp
  show "incoming_event_queue (snd (distribute_event_body sc s ev)) =
     incoming_event_queue (snd (ancestor_promotion sc ?s1 ev))"
    using body by (simp add: ap)
  show "incoming_dup_tracker (snd (distribute_event_body sc s ev)) = incoming_dup_tracker s"
    using body fr by simp
  show "outgoing_dup_tracker (snd (distribute_event_body sc s ev)) = outgoing_dup_tracker s"
    using body fr by simp
  show "modules_by_priority_cache (snd (distribute_event_body sc s ev)) = modules_by_priority_cache s"
    using body fr by simp
  show "hook_modules_cache (snd (distribute_event_body sc s ev)) = hook_modules_cache s"
    using body fr by simp
  show "finished_init (snd (distribute_event_body sc s ev)) = finished_init s"
    using body fr by simp
qed

lemma distribute_event_delivered:
  assumes "fst (ancestor_promotion sc (report_distance_internalization sc s ev) ev) = None"
  shows "delivered (distribute_event sc s ev) = delivered s @ map (\<lambda>m. (m, ev))
     (filter (\<lambda>m. \<not> hook (mods s m) \<and>
        (hash_event sc (events s ev) \<notin> outgoing_dup_tracker s \<or> accept_dupes (mods s m) \<or>
         is_graph_important (mods s m) (events (distribute_event sc s ev) ev))) (modules sc))"
proof -
  let ?s1 = "report_distance_internalization sc s ev"
  obtain s2 where ap: "ancestor_promotion sc ?s1 ev = (None, s2)"
    using assms by (cases "ancestor_promotion sc ?s1 ev") auto
  have fr: "mods s2 = mods s" "outgoing_dup_tracker s2 = outgoing_dup_tracker s"
    "delivered s2 = delivered s"
    using ancestor_promotion_frame [of sc ?s1 ev] by (simp_all add: ap rdi_frame)
  have h: "hash_event sc (events s2 ev) = hash_event sc (events s ev)"
    using ancestor_promotion_hash [of sc ?s1 ev ev] by (simp add: ap rdi_hash)
  show ?thesis
    unfolding distribute_event_def acatch_def distribute_event_body_unfold [OF ap]
    by (simp add: fan_out_eq logmsg_def Let_def fr h)
qed

lemma internal_True_idem: "internal e \<Longrightarrow> e\<lparr>internal := True\<rparr> = e"
  by (cases e) simp

lemma ap_promote_internal:
  assumes "source (events s ev) = Some src" and "internal (events s src)"
    and "\<not> internal (events s ev) \<or> graph_important (events s ev)"
  shows "internal (events (snd (ancestor_promotion sc s ev)) src) =
           (scope_report_distance sc < scope_distance (events s src))"
  using assms
  by (auto simp: ancestor_promotion_def queue_event_internal helper_defs Let_def)

lemma ap_promote_graph_important:
  assumes "source (events s ev) = Some src" and "internal (events s src)"
    and "\<not> internal (events s ev) \<or> graph_important (events s ev)"
  shows "graph_important (events (snd (ancestor_promotion sc s ev)) src)"
  using assms
  by (auto simp: ancestor_promotion_def queue_event_graph_important helper_defs Let_def)

lemma ap_requeue:
  assumes "source (events s ev) = Some src" and "internal (events s src)"
    and "\<not> internal (events s ev) \<or> graph_important (events s ev)"
    and "\<not> graph_important (events s src)"
  shows "ancestor_promotion sc s ev =
     queue_event sc
       (logmsg Debug (Requeuing src ev)
          (upd_event src (\<lambda>e. e\<lparr>internal := (scope_report_distance sc < scope_distance e),
                                 graph_important := True\<rparr>) s))
       (Some src) no_kwargs"
proof (cases "scope_distance (events s src) \<le> scope_report_distance sc")
  case True
  with assms show ?thesis
    by (simp add: ancestor_promotion_def helper_defs Let_def)
next
  case False
  with assms show ?thesis
    by (simp add: ancestor_promotion_def helper_defs Let_def internal_True_idem)
qed

lemma ap_no_requeue:
  assumes "source (events s ev) = Some src" and "graph_important (events s src)"
  shows "incoming_event_queue (snd (ancestor_promotion sc s ev)) = incoming_event_queue s"
  using assms
  by (auto simp: ancestor_promotion_def helper_defs Let_def)

lemma ap_requeue_queue:
  assumes "source (events s ev) = Some src" and "internal (events s src)"
    and "\<not> internal (events s ev) \<or> graph_important (events s ev)"
    and "\<not> graph_important (events s src)" and "source (events s src) = Some g"
  shows "incoming_event_queue (snd (ancestor_promotion sc s ev)) =
           add_mset (src, no_kwargs) (incoming_event_queue s)"
  unfolding ap_requeue [OF assms(1-4)]
  by (subst queue_event_Some [where src = g]) (simp_all add: helper_defs assms(5))

lemma distribute_event_events:
  "events (distribute_event sc s ev) =
     events (snd (ancestor_promotion sc (report_distance_internalization sc s ev) ev))"
  by (simp add: distribute_event_def acatch_def distribute_event_body_frame)

lemma distribute_event_queue:
  "incoming_event_queue (distribute_event sc s ev) =
     incoming_event_queue (snd (ancestor_promotion sc (report_distance_internalization sc s ev) ev))"
  by (simp add: distribute_event_def acatch_def distribute_event_body_frame)

lemma is_incoming_duplicate_result:
  "fst (is_incoming_duplicate sc s ev add) =
     (per_producer_fingerprint sc s ev \<in> incoming_dup_tracker s \<and> producer_suppress_dupes s ev)"
  by (auto simp: is_incoming_duplicate_def per_producer_fingerprint_def
        producer_suppress_dupes_def Let_def split: option.splits)

lemma is_incoming_duplicate_state:
  "snd (is_incoming_duplicate sc s ev add) =
     (if add then s\<lparr>incoming_dup_tracker :=
                      insert (per_producer_fingerprint sc s ev) (incoming_dup_tracker s)\<rparr>
      else s)"
  by (auto simp: is_incoming_duplicate_def per_producer_fingerprint_def Let_def
           split: option.splits)

lemma event_precheck_tracker:
  "incoming_dup_tracker (snd (event_precheck sc s ev)) =
     (if \<not> dummy (events s ev) \<and>
         \<not> (case get_source s ev of None \<Rightarrow> False
             | Some src \<Rightarrow> event_eq sc (events s ev) (events s src)) \<and>
         \<not> graph_important (events s ev)
      then insert (per_producer_fingerprint sc s ev) (incoming_dup_tracker s)
      else incoming_dup_tracker s)"
proof -
  obtain b s1 where r: "is_incoming_duplicate sc s ev True = (b, s1)"
    by (cases "is_incoming_duplicate sc s ev True")
  have "s1 = s\<lparr>incoming_dup_tracker :=
                  insert (per_producer_fingerprint sc s ev) (incoming_dup_tracker s)\<rparr>"
    using is_incoming_duplicate_state [of sc s ev True] by (simp add: r)
  then show ?thesis
    by (simp add: event_precheck_def r logmsg_def split: bool.splits)
qed

lemma event_precheck_result:
  "fst (event_precheck sc s ev) =
     (\<not> dummy (events s ev) \<and>
      \<not> (case get_source s ev of None \<Rightarrow> False
          | Some src \<Rightarrow> event_eq sc (events s ev) (events s src)) \<and>
      (graph_important (events s ev) \<or>
       \<not> (per_producer_fingerprint sc s ev \<in> incoming_dup_tracker s \<and>
          producer_suppress_dupes s ev)))"
proof -
  obtain b s1 where r: "is_incoming_duplicate sc s ev True = (b, s1)"
    by (cases "is_incoming_duplicate sc s ev True")
  have "b = (per_producer_fingerprint sc s ev \<in> incoming_dup_tracker s \<and>
             producer_suppress_dupes s ev)"
    using is_incoming_duplicate_result [of sc s ev True] by (simp add: r)
  then show ?thesis
    by (auto simp: event_precheck_def r split: bool.splits)
qed

lemma event_precheck_bypass:
  assumes "graph_important (events s ev)" and "\<not> dummy (events s ev)"
    and "\<not> (case get_source s ev of None \<Rightarrow> False
            | Some src \<Rightarrow> event_eq sc (events s ev) (events s src))"
  shows "event_precheck sc s ev = (True, s)"
  using assms by (simp add: event_precheck_def)

lemma event_precheck_frame:
  "events (snd (event_precheck sc s ev)) = events s"
  "mods (snd (event_precheck sc s ev)) = mods s"
  "incoming_event_queue (snd (event_precheck sc s ev)) = incoming_event_queue s"
  "outgoing_dup_tracker (snd (event_precheck sc s ev)) = outgoing_dup_tracker s"
  "delivered (snd (event_precheck sc s ev)) = delivered s"
  by (auto simp: event_precheck_def logmsg_def is_incoming_duplicate_def Let_def
           split: bool.splits prod.splits option.splits)

declare seed_events.simps [simp del]

lemma distribute_event_tracker:
  "incoming_dup_tracker (distribute_event sc s ev) = incoming_dup_tracker s"
  by (simp add: distribute_event_def acatch_def distribute_event_body_frame)

lemma run_callback_tracker:
  "incoming_dup_tracker (snd (run_callback f ev s)) = incoming_dup_tracker s"
  by (simp add: run_callback_def split: prod.splits)

lemma success_then_distribute_tracker:
  "incoming_dup_tracker (success_then_distribute sc s ev kw) = incoming_dup_tracker s"
  by (simp add: success_then_distribute_def Let_def distribute_event_tracker
        run_callback_tracker split: option.splits)

lemma abort_evaluation_tracker:
  assumes "abort_evaluation f ev s = (a, r, s1)"
  shows "incoming_dup_tracker s1 = incoming_dup_tracker s"
proof -
  obtain v s0 where rc: "run_callback f ev s = (v, s0)"
    by (cases "run_callback f ev s")
  have "incoming_dup_tracker s0 = incoming_dup_tracker s"
    using run_callback_tracker [of f ev s] by (simp add: rc)
  with assms show ?thesis
    by (auto simp: abort_evaluation_def rc Let_def split: option.splits)
qed

lemma abort_then_distribute_tracker:
  "incoming_dup_tracker (abort_then_distribute sc s ev kw) = incoming_dup_tracker s"
proof (cases "abort_if kw")
  case None
  then show ?thesis
    by (simp add: abort_then_distribute_def success_then_distribute_tracker)
next
  case (Some f)
  obtain a r s1 where ae: "abort_evaluation f ev s = (a, r, s1)"
    by (cases "abort_evaluation f ev s") auto
  from abort_evaluation_tracker [OF ae] show ?thesis
    by (simp add: abort_then_distribute_def Some ae logmsg_def success_then_distribute_tracker)
qed

lemma scope_shepherding_tracker:
  "incoming_dup_tracker (scope_shepherding sc s ev) = incoming_dup_tracker s"
  by (simp add: scope_shepherding_def Let_def helper_defs)

lemma emit_event_slow_tracker:
  "incoming_dup_tracker (emit_event_slow sc s ev kw) = incoming_dup_tracker s"
  by (simp add: emit_event_slow_def Let_def logmsg_def abort_then_distribute_tracker
        scope_shepherding_tracker)

lemma emit_event_tracker:
  "incoming_dup_tracker s \<subseteq> incoming_dup_tracker (emit_event sc s ev kw)"
proof -
  obtain b s1 where pc: "event_precheck sc s ev = (b, s1)"
    by (cases "event_precheck sc s ev")
  have "incoming_dup_tracker s \<subseteq> incoming_dup_tracker s1"
    using event_precheck_tracker [of sc s ev] by (auto simp: pc split: if_splits)
  then show ?thesis
    by (simp add: emit_event_def Let_def pc logmsg_def emit_event_slow_tracker
          distribute_event_tracker)
qed

lemma modules_by_priority_tracker:
  "incoming_dup_tracker (snd (modules_by_priority sc s)) = incoming_dup_tracker s"
  by (simp add: modules_by_priority_def Let_def)

lemma hook_modules_tracker:
  "incoming_dup_tracker (snd (hook_modules sc s)) = incoming_dup_tracker s"
proof -
  obtain mbp s1 where m: "modules_by_priority sc s = (mbp, s1)"
    by (cases "modules_by_priority sc s")
  have "incoming_dup_tracker s1 = incoming_dup_tracker s"
    using modules_by_priority_tracker [of sc s] by (simp add: m)
  then show ?thesis
    by (simp add: hook_modules_def m Let_def upd_module_def split: option.splits list.splits)
qed

lemma seed_events_tracker:
  "incoming_dup_tracker (snd (seed_events sc evs s)) = incoming_dup_tracker s"
proof (induction evs arbitrary: s)
  case Nil
  show ?case by (simp add: seed_events.simps)
next
  case (Cons ev evs)
  let ?s7 = "logmsg Verbose (Target ev)
     (let s4 = upd_event ev (\<lambda>e. e\<lparr>scan_set := True\<rparr>)
                 (upd_event ev (\<lambda>e. e\<lparr>web_spider_distance := 0\<rparr>)
                   (set_scope_distance sc ev 0
                     (upd_event ev (\<lambda>e. e\<lparr>dummy := False\<rparr>) s)));
          s5 = (if source (events s4 ev) = None
                then upd_event ev (\<lambda>e. e\<lparr>source := Some (root_event sc)\<rparr>) s4
                else s4)
      in if module (events s5 ev) = None
         then upd_event ev (\<lambda>e. e\<lparr>module := Some (dummy_module sc)\<rparr>) s5
         else s5)"
  have s7: "incoming_dup_tracker ?s7 = incoming_dup_tracker s"
    by (simp add: helper_defs Let_def)
  obtain hm s8 where h1: "hook_modules sc ?s7 = (hm, s8)"
    by (cases "hook_modules sc ?s7")
  have s8: "incoming_dup_tracker s8 = incoming_dup_tracker s"
    using hook_modules_tracker [of sc ?s7] by (simp add: h1 s7)
  obtain hm2 s9 where h2: "hook_modules sc s8 = (hm2, s9)"
    by (cases "hook_modules sc s8")
  have s9: "incoming_dup_tracker s9 = incoming_dup_tracker s"
    using hook_modules_tracker [of sc s8] by (simp add: h2 s8)
  obtain x sq where q: "queue_event sc s8 (Some ev) no_kwargs = (x, sq)"
    by (cases "queue_event sc s8 (Some ev) no_kwargs")
  have sq: "incoming_dup_tracker sq = incoming_dup_tracker s"
    using queue_event_frame(2) [of sc s8 "Some ev" no_kwargs] by (simp add: q s8)
  have unf: "seed_events sc (ev # evs) s =
     (if hm \<noteq> []
      then (case hm2 of
              first_hook_module # rest \<Rightarrow>
                seed_events sc evs (module_queue_event first_hook_module ev s9)
            | [] \<Rightarrow> (Some (OtherError ''IndexError''), s9))
      else (case x of Some y \<Rightarrow> (Some y, sq) | None \<Rightarrow> seed_events sc evs sq))"
    using h1 h2 q by (simp add: seed_events.simps Let_def)
  show ?case
    unfolding unf
    by (simp add: Cons.IH s9 sq module_queue_event_def split: list.splits option.splits)
qed

lemma init_events_tracker:
  "incoming_dup_tracker (init_events sc s) = incoming_dup_tracker s"
proof -
  let ?evs = "root_event sc # sort_key (\<lambda>e. length (data (events s e))) (target_events sc)"
  obtain x s1 where r: "seed_events sc ?evs s = (x, s1)"
    by (cases "seed_events sc ?evs s")
  have "incoming_dup_tracker s1 = incoming_dup_tracker s"
    using seed_events_tracker [of sc ?evs s] by (simp add: r)
  then show ?thesis
    using r by (simp add: init_events_def Let_def split: option.splits)
qed

lemma worker_iteration_tracker:
  "incoming_dup_tracker s \<subseteq> incoming_dup_tracker (worker_iteration sc s p)"
proof -
  obtain hm s1 where h: "hook_modules sc s = (hm, s1)"
    by (cases "hook_modules sc s")
  have s1: "incoming_dup_tracker s1 = incoming_dup_tracker s"
    using hook_modules_tracker [of sc s] by (simp add: h)
  have e: "incoming_dup_tracker s \<subseteq> incoming_dup_tracker (emit_event sc s1 ev kw)" for ev kw
    using emit_event_tracker [of s1 sc ev kw] by (simp add: s1)
  have e2: "incoming_dup_tracker s \<subseteq> incoming_dup_tracker
       (emit_event sc (s1\<lparr>incoming_event_queue := q\<rparr>) ev kw)" for ev kw q
    using emit_event_tracker [of "s1\<lparr>incoming_event_queue := q\<rparr>" sc ev kw] by (simp add: s1)
  show ?thesis
    by (cases p) (simp_all add: worker_iteration_def h s1 e e2)
qed

lemma run_operation_tracker:
  "incoming_dup_tracker s \<subseteq> incoming_dup_tracker (run_operation sc s op)"
proof (cases op)
  case (EventPrecheck ev)
  then show ?thesis
    by (auto simp: event_precheck_tracker)
next
  case (IsIncomingDuplicate ev add)
  then show ?thesis
    by (auto simp: is_incoming_duplicate_state)
qed (simp_all add: init_events_tracker emit_event_tracker emit_event_slow_tracker
       is_outgoing_duplicate_def Let_def distribute_event_tracker queue_event_frame
       modules_by_priority_tracker hook_modules_tracker worker_iteration_tracker)

lemma run_operations_tracker:
  "incoming_dup_tracker s \<subseteq> incoming_dup_tracker (run_operations sc s ops)"
proof (induction ops arbitrary: s)
  case Nil
  show ?case by simp
next
  case (Cons op ops)
  have "incoming_dup_tracker s \<subseteq> incoming_dup_tracker (run_operation sc s op)"
    by (rule run_operation_tracker)
  also have "\<dots> \<subseteq> incoming_dup_tracker (run_operations sc (run_operation sc s op) ops)"
    by (rule Cons.IH)
  finally show ?case by simp
qed

lemma scope_shepherding_frame:
  "delivered (scope_shepherding sc s ev) = delivered s"
  "incoming_event_queue (scope_shepherding sc s ev) = incoming_event_queue s"
  "word_cloud (scope_shepherding sc s ev) = word_cloud s"
  "outgoing_dup_tracker (scope_shepherding sc s ev) = outgoing_dup_tracker s"
  by (simp_all add: scope_shepherding_def Let_def helper_defs)

lemma emit_event_slow_abort:
  assumes "\<not> blacklisted sc (events s ev)" and "''blacklisted'' \<notin> tags (events s ev)"
    and "abort_if kw = Some f"
    and "f (events (scope_shepherding sc (logmsg Debug (Emitting ev) s) ev)) ev = (heap, r)"
  shows "emit_event_slow sc s ev kw =
     logmsg Debug (EmitFinished ev)
       (case unpack_pair (case r of Inl x \<Rightarrow> PyBool False | Inr v \<Rightarrow> v) of
          Some (a, reason) \<Rightarrow>
            if truthy a
            then logmsg Verbose (NotRaising ev (Some reason))
                   ((scope_shepherding sc (logmsg Debug (Emitting ev) s) ev)\<lparr>events := heap\<rparr>)
            else success_then_distribute sc
                   ((scope_shepherding sc (logmsg Debug (Emitting ev) s) ev)\<lparr>events := heap\<rparr>) ev kw
        | None \<Rightarrow>
            if truthy (case r of Inl x \<Rightarrow> PyBool False | Inr v \<Rightarrow> v)
            then logmsg Verbose (NotRaising ev None)
                   ((scope_shepherding sc (logmsg Debug (Emitting ev) s) ev)\<lparr>events := heap\<rparr>)
            else success_then_distribute sc
                   ((scope_shepherding sc (logmsg Debug (Emitting ev) s) ev)\<lparr>events := heap\<rparr>) ev kw)"
proof -
  have b: "\<not> blacklisted sc (events (logmsg Debug (Emitting ev) s) ev)"
    "''blacklisted'' \<notin> tags (events (logmsg Debug (Emitting ev) s) ev)"
    using assms(1,2) by (simp_all add: logmsg_def)
  show ?thesis
    unfolding emit_event_slow_def Let_def abort_then_distribute_def abort_evaluation_def
      run_callback_def
    using b by (simp add: assms(3,4) split: option.splits)
qed

lemmas ex_defs = ex_state_def ex_events_def ex_event_def ex_mods_def ex_module_def ex_scan_def
  ex_state_seen_def

lemmas seed_defs = seed_scan_def seed_state_def seed_event_def

lemma ancestor_promotion_source:
  "source (events (snd (ancestor_promotion sc s ev)) r) = source (events s r)"
  by (auto simp: ancestor_promotion_def queue_event_source helper_defs Let_def split: option.splits)

lemma distribute_event_source:
  "source (events (distribute_event sc s ev) r) = source (events s r)"
  by (simp add: distribute_event_events ancestor_promotion_source rdi_source)

lemma distribute_event_hash:
  "hash_event sc (events (distribute_event sc s ev) r) = hash_event sc (events s r)"
  by (simp add: distribute_event_events ancestor_promotion_hash rdi_hash)

lemma distribute_event_frame:
  "mods (distribute_event sc s ev) = mods s"
  "outgoing_dup_tracker (distribute_event sc s ev) = outgoing_dup_tracker s"
  by (simp_all add: distribute_event_def acatch_def distribute_event_body_frame)

lemma distribute_event_delivered_src:
  assumes "source (events s ev) = Some src" and "source (events s src) \<noteq> None"
  shows "delivered (distribute_event sc s ev) = delivered s @ map (\<lambda>m. (m, ev))
       (filter (\<lambda>m. \<not> hook (mods s m) \<and>
          (hash_event sc (events s ev) \<notin> outgoing_dup_tracker s \<or> accept_dupes (mods s m) \<or>
           is_graph_important (mods s m) (events (distribute_event sc s ev) ev))) (modules sc))"
proof -
  have "fst (ancestor_promotion sc (report_distance_internalization sc s ev) ev) = None"
    using assms by (intro ancestor_promotion_returns [where src = src]) (simp_all add: rdi_source)
  then show ?thesis by (rule distribute_event_delivered)
qed

subsection \<open>The setters and the functions that assign through them\<close>

lemma ex_scan_only_lowers: "scope_distance_only_lowers ex_scan"
  by (auto simp: scope_distance_only_lowers_def ex_scan_def lowering_setter_def)

lemma seed_scan_only_lowers: "scope_distance_only_lowers seed_scan"
  by (auto simp: scope_distance_only_lowers_def seed_scan_def ex_scan_def lowering_setter_def)

lemmas setter_defs = lowering_setter_def clamp_priority_def

lemma set_module_priority_scope_distance:
  "scope_distance (events (set_module_priority sc ev p s) r) = scope_distance (events s r)"
  by (simp add: set_module_priority_def upd_event_def)

lemma set_scope_distance_scope_distance:
  "scope_distance (events (set_scope_distance sc ev v s) r) =
     scope_distance_setter sc (events s) ev v r"
  by (simp add: set_scope_distance_def)

lemma set_scope_distance_module_priority:
  "module_priority (events (set_scope_distance sc ev v s) r) = module_priority (events s r)"
  by (simp add: set_scope_distance_def)

lemma only_lowers_target:
  assumes "scope_distance_only_lowers sc" and "0 \<le> v" and "- 1 \<le> scope_distance (h ev)"
  shows "scope_distance_setter sc h ev v ev =
          (if scope_distance (h ev) = - 1 then v else min (scope_distance (h ev)) v)"
  using assms unfolding scope_distance_only_lowers_def by blast

lemma only_lowers_set:
  assumes "scope_distance_only_lowers sc" and "0 \<le> scope_distance (h r)"
  shows "0 \<le> scope_distance_setter sc h ev v r \<and>
     scope_distance_setter sc h ev v r \<le> scope_distance (h r)"
  using assms unfolding scope_distance_only_lowers_def by blast

lemma only_lowers_bound:
  assumes "scope_distance_only_lowers sc" and "- 1 \<le> scope_distance (h r)"
  shows "- 1 \<le> scope_distance_setter sc h ev v r"
  using assms unfolding scope_distance_only_lowers_def by blast

lemma queue_event_module_priority:
  assumes "source (events s ev) = Some src"
  shows "module_priority (events (snd (queue_event sc s (Some ev) kw)) ev) =
     (if 0 < scope_distance (events s ev) \<and>
         \<not> (whitelisted sc (events s ev) \<and> \<not> blacklisted sc (events s ev))
      then module_priority_setter sc (module_priority (events s ev) + scope_distance (events s ev))
      else module_priority (events s ev))"
  unfolding queue_event_Some [OF assms]
  by (auto simp: set_scope_distance_module_priority set_module_priority_def upd_event_def)

lemma queue_event_scope_distance:
  assumes "source (events s ev) = Some src" and "scope_distance_only_lowers sc"
    and "- 1 \<le> scope_distance (events s ev)" and "- 1 \<le> scope_distance (events s src)"
  shows "scope_distance (events (snd (queue_event sc s (Some ev) kw)) ev) =
     (if scope_distance (events s ev) = - 1 then scope_distance (events s src) + 1
      else min (scope_distance (events s ev)) (scope_distance (events s src) + 1))"
proof -
  let ?s1 = "if 0 < scope_distance (events s ev) \<and>
                \<not> (whitelisted sc (events s ev) \<and> \<not> blacklisted sc (events s ev))
             then set_module_priority sc ev
                    (module_priority (events s ev) + scope_distance (events s ev)) s
             else s"
  have sd: "scope_distance (events ?s1 ev) = scope_distance (events s ev)"
    by (simp add: set_module_priority_scope_distance)
  have "scope_distance (events (snd (queue_event sc s (Some ev) kw)) ev) =
     scope_distance_setter sc (events ?s1) ev (scope_distance (events s src) + 1) ev"
    unfolding queue_event_Some [OF assms(1)]
    by (simp add: set_scope_distance_scope_distance)
  also have "\<dots> = (if scope_distance (events ?s1 ev) = - 1 then scope_distance (events s src) + 1
      else min (scope_distance (events ?s1 ev)) (scope_distance (events s src) + 1))"
  proof (rule only_lowers_target [OF assms(2)])
    show "0 \<le> scope_distance (events s src) + 1"
      using assms(4) by simp
    show "- 1 \<le> scope_distance (events ?s1 ev)"
      unfolding sd by (rule assms(3))
  qed
  finally show ?thesis
    unfolding sd .
qed

lemma queue_event_sd_invariant:
  assumes "\<And>(h :: event_ref \<Rightarrow> event) ev v.
             Q (scope_distance (h r)) \<Longrightarrow> Q (scope_distance_setter sc h ev v r)"
    and "Q (scope_distance (events s r))"
  shows "Q (scope_distance (events (snd (queue_event sc s e kw)) r))"
proof (cases e)
  case None
  then show ?thesis using assms(2) by (simp add: queue_event_def)
next
  case (Some ev)
  let ?s1 = "if 0 < scope_distance (events s ev) \<and>
                \<not> (whitelisted sc (events s ev) \<and> \<not> blacklisted sc (events s ev))
             then set_module_priority sc ev
                    (module_priority (events s ev) + scope_distance (events s ev)) s
             else s"
  have sd: "scope_distance (events ?s1 r) = scope_distance (events s r)"
    by (simp add: set_module_priority_scope_distance)
  have src: "source (events ?s1 ev) = source (events s ev)"
    by (simp add: set_module_priority_def upd_event_def)
  show ?thesis
  proof (cases "source (events s ev)")
    case None
    have "snd (queue_event sc s (Some ev) kw) = ?s1"
      using None src by (auto simp: queue_event_def Let_def)
    then show ?thesis
      using assms(2) Some sd by simp
  next
    case (Some g)
    have "scope_distance (events (snd (queue_event sc s (Some ev) kw)) r) =
       scope_distance_setter sc (events ?s1) ev (scope_distance (events s g) + 1) r"
      unfolding queue_event_Some [OF Some]
      by (simp add: set_scope_distance_scope_distance)
    moreover have "Q (scope_distance_setter sc (events ?s1) ev (scope_distance (events s g) + 1) r)"
      by (rule assms(1)) (simp only: sd assms(2))
    ultimately show ?thesis
      using \<open>e = Some ev\<close> by simp
  qed
qed

lemma queue_event_never_raises_distance:
  assumes "scope_distance_only_lowers sc" and "0 \<le> scope_distance (events s r)"
  shows "0 \<le> scope_distance (events (snd (queue_event sc s e kw)) r) \<and>
     scope_distance (events (snd (queue_event sc s e kw)) r) \<le> scope_distance (events s r)"
proof -
  let ?Q = "\<lambda>d. 0 \<le> d \<and> d \<le> scope_distance (events s r)"
  have "?Q (scope_distance (events (snd (queue_event sc s e kw)) r))"
  proof (rule queue_event_sd_invariant [where Q = ?Q])
    fix h :: "event_ref \<Rightarrow> event" and ev v
    assume q: "0 \<le> scope_distance (h r) \<and> scope_distance (h r) \<le> scope_distance (events s r)"
    then have "0 \<le> scope_distance_setter sc h ev v r \<and>
       scope_distance_setter sc h ev v r \<le> scope_distance (h r)"
      by (intro only_lowers_set [OF assms(1)]) simp
    with q show "0 \<le> scope_distance_setter sc h ev v r \<and>
       scope_distance_setter sc h ev v r \<le> scope_distance (events s r)"
      by linarith
  next
    show "0 \<le> scope_distance (events s r) \<and> scope_distance (events s r) \<le> scope_distance (events s r)"
      using assms(2) by simp
  qed
  then show ?thesis .
qed

lemma ap_requeue_module_priority:
  assumes "source (events s ev) = Some src" and "internal (events s src)"
    and "\<not> internal (events s ev) \<or> graph_important (events s ev)"
    and "\<not> graph_important (events s src)" and "source (events s src) = Some g"
  shows "module_priority (events (snd (ancestor_promotion sc s ev)) src) =
           (if 0 < scope_distance (events s src) \<and>
               \<not> (whitelisted sc ((events s src)\<lparr>internal :=
                       (scope_report_distance sc < scope_distance (events s src)),
                       graph_important := True\<rparr>) \<and>
                  \<not> blacklisted sc ((events s src)\<lparr>internal :=
                       (scope_report_distance sc < scope_distance (events s src)),
                       graph_important := True\<rparr>))
            then module_priority_setter sc
                   (module_priority (events s src) + scope_distance (events s src))
            else module_priority (events s src))"
  unfolding ap_requeue [OF assms(1-4)]
  by (subst queue_event_module_priority [where src = g])
     (auto simp: upd_event_def logmsg_def assms(5))

lemma ap_requeue_scope_distance:
  assumes "source (events s ev) = Some src" and "internal (events s src)"
    and "\<not> internal (events s ev) \<or> graph_important (events s ev)"
    and "\<not> graph_important (events s src)" and "source (events s src) = Some g"
    and "scope_distance_only_lowers sc"
    and "- 1 \<le> scope_distance (events s src)" and "- 1 \<le> scope_distance (events s g)"
  shows "scope_distance (events (snd (ancestor_promotion sc s ev)) src) =
           (if scope_distance (events s src) = - 1 then scope_distance (events s g) + 1
            else min (scope_distance (events s src)) (scope_distance (events s g) + 1))"
  unfolding ap_requeue [OF assms(1-4)]
  by (subst queue_event_scope_distance [where src = g])
     (use assms(5-8) in \<open>simp_all add: upd_event_def logmsg_def\<close>)

lemma ancestor_promotion_never_raises_distance:
  assumes "scope_distance_only_lowers sc" and "0 \<le> scope_distance (events s r)"
  shows "0 \<le> scope_distance (events (snd (ancestor_promotion sc s ev)) r) \<and>
     scope_distance (events (snd (ancestor_promotion sc s ev)) r) \<le> scope_distance (events s r)"
proof -
  have q: "0 \<le> scope_distance (events (snd (queue_event sc s' e kw)) r) \<and>
     scope_distance (events (snd (queue_event sc s' e kw)) r) \<le> scope_distance (events s r)"
    if "scope_distance (events s' r) = scope_distance (events s r)" for s' e kw
    using queue_event_never_raises_distance [OF assms(1), of s' r e kw] assms(2) that by simp
  show ?thesis
    using assms(2)
    by (auto simp: ancestor_promotion_def Let_def upd_event_def logmsg_def q split: option.splits)
qed

subsection \<open>The abort check and the seed step\<close>

lemma scope_shepherding_mods:
  "mods (scope_shepherding sc s ev) = mods s"
  by (simp add: scope_shepherding_def Let_def helper_defs)

lemma run_callback_frame:
  "delivered (snd (run_callback f ev s)) = delivered s"
  "mods (snd (run_callback f ev s)) = mods s"
  "outgoing_dup_tracker (snd (run_callback f ev s)) = outgoing_dup_tracker s"
  "incoming_event_queue (snd (run_callback f ev s)) = incoming_event_queue s"
  "word_cloud (snd (run_callback f ev s)) = word_cloud s"
  by (simp_all add: run_callback_def split: prod.splits)

lemma hook_modules_frame:
  "events (snd (hook_modules sc s)) = events s"
  "incoming_event_queue (snd (hook_modules sc s)) = incoming_event_queue s"
  "finished_init (snd (hook_modules sc s)) = finished_init s"
  by (simp_all add: hook_modules_def modules_by_priority_def Let_def upd_module_def
        split: option.splits list.splits)

lemma hook_modules_cong:
  assumes "hook_modules_cache s' = hook_modules_cache s"
    and "modules_by_priority_cache s' = modules_by_priority_cache s"
    and "mods s' = mods s"
  shows "fst (hook_modules sc s') = fst (hook_modules sc s)"
  using assms
  by (simp add: hook_modules_def modules_by_priority_def Let_def split: option.splits)

lemma hook_modules_stable:
  assumes "fst (hook_modules sc s) = []"
  shows "fst (hook_modules sc (snd (hook_modules sc s))) = []"
proof (cases "hook_modules_cache s")
  case (Some hm)
  then show ?thesis
    using assms by (simp add: hook_modules_def)
next
  case None
  obtain mbp s1 where m: "modules_by_priority sc s = (mbp, s1)"
    by (cases "modules_by_priority sc s")
  have f: "filter (\<lambda>m. hook (mods s1 m)) mbp = []"
    using assms None m by (simp add: hook_modules_def Let_def)
  have "snd (hook_modules sc s) = s1\<lparr>hook_modules_cache := Some []\<rparr>"
    using None m f by (simp add: hook_modules_def Let_def)
  then show ?thesis
    by (simp add: hook_modules_def)
qed

lemma seed_events_no_hooks_step:
  assumes "fst (hook_modules sc s) = []"
    and "scope_distance_only_lowers sc"
    and "- 1 \<le> scope_distance (events s ev)"
  shows "\<exists>s9. seed_events sc (ev # evs) s = seed_events sc evs s9 \<and>
           fst (hook_modules sc s9) = [] \<and>
           incoming_event_queue s9 = add_mset (ev, no_kwargs) (incoming_event_queue s) \<and>
           finished_init s9 = finished_init s \<and>
           scope_distance (events s9 ev) = 0 \<and>
           (\<forall>r. - 1 \<le> scope_distance (events s r) \<longrightarrow> - 1 \<le> scope_distance (events s9 r)) \<and>
           (\<forall>r. scope_distance (events s r) = 0 \<longrightarrow> scope_distance (events s9 r) = 0)"
proof -
  let ?s1 = "upd_event ev (\<lambda>e. e\<lparr>dummy := False\<rparr>) s"
  let ?s2 = "set_scope_distance sc ev 0 ?s1"
  let ?s7 = "logmsg Verbose (Target ev)
     (let s4 = upd_event ev (\<lambda>e. e\<lparr>scan_set := True\<rparr>)
                 (upd_event ev (\<lambda>e. e\<lparr>web_spider_distance := 0\<rparr>) ?s2);
          s5 = (if source (events s4 ev) = None
                then upd_event ev (\<lambda>e. e\<lparr>source := Some (root_event sc)\<rparr>) s4
                else s4)
      in if module (events s5 ev) = None
         then upd_event ev (\<lambda>e. e\<lparr>module := Some (dummy_module sc)\<rparr>) s5
         else s5)"
  let ?s8 = "snd (hook_modules sc ?s7)"
  let ?s9 = "snd (queue_event sc ?s8 (Some ev) no_kwargs)"
  have sd1: "scope_distance (events ?s1 r) = scope_distance (events s r)" for r
    by (simp add: upd_event_def)
  have sd2: "scope_distance (events ?s2 r) = scope_distance_setter sc (events ?s1) ev 0 r" for r
    by (simp add: set_scope_distance_scope_distance)
  have sd7: "scope_distance (events ?s7 r) = scope_distance (events ?s2 r)" for r
    by (simp add: upd_event_def logmsg_def Let_def)
  have sd8: "scope_distance (events ?s8 r) = scope_distance (events ?s2 r)" for r
    by (simp only: hook_modules_frame sd7)
  have fr7: "hook_modules_cache ?s7 = hook_modules_cache s"
    "modules_by_priority_cache ?s7 = modules_by_priority_cache s" "mods ?s7 = mods s"
    "incoming_event_queue ?s7 = incoming_event_queue s" "finished_init ?s7 = finished_init s"
    by (simp_all add: helper_defs Let_def)
  have h7: "fst (hook_modules sc ?s7) = []"
    using hook_modules_cong [OF fr7(1-3), of sc] assms(1) by simp
  have h8: "fst (hook_modules sc ?s8) = []"
    by (rule hook_modules_stable [OF h7])
  have h9: "fst (hook_modules sc ?s9) = []"
    using hook_modules_cong [of ?s9 ?s8 sc] h8 by (simp add: queue_event_frame)
  have "source (events ?s7 ev) \<noteq> None"
    by (simp add: helper_defs Let_def)
  then obtain g where g: "source (events ?s8 ev) = Some g"
    by (auto simp only: hook_modules_frame)
  have q: "queue_event sc ?s8 (Some ev) no_kwargs = (None, ?s9)"
    using queue_event_Some [OF g, of sc no_kwargs] by simp
  have hm: "hook_modules sc ?s7 = ([], ?s8)"
    using h7 by (simp add: prod_eq_iff)
  have unf_gen: "seed_events sc (ev # evs) s = seed_events sc evs s9"
    if "hook_modules sc ?s7 = ([], s8)" "queue_event sc s8 (Some ev) no_kwargs = (None, s9)"
    for s8 s9
    using that by (simp add: seed_events.simps Let_def)
  have unf: "seed_events sc (ev # evs) s = seed_events sc evs ?s9"
    by (rule unf_gen [OF hm q])
  have qu: "incoming_event_queue ?s9 = add_mset (ev, no_kwargs) (incoming_event_queue s)"
    unfolding queue_event_Some [OF g]
    by (simp add: hook_modules_frame fr7)
  have fi: "finished_init ?s9 = finished_init s"
    by (simp only: queue_event_frame hook_modules_frame fr7)
  have inv: "Q (scope_distance (events ?s9 r))"
    if cl: "\<And>(h :: event_ref \<Rightarrow> event) e v.
           Q (scope_distance (h r)) \<Longrightarrow> Q (scope_distance_setter sc h e v r)"
      and q0: "Q (scope_distance (events s r))" for Q r
  proof (rule queue_event_sd_invariant [where Q = Q])
    fix h :: "event_ref \<Rightarrow> event" and e v
    assume "Q (scope_distance (h r))"
    then show "Q (scope_distance_setter sc h e v r)" by (rule cl)
  next
    have "Q (scope_distance_setter sc (events ?s1) ev 0 r)"
      by (rule cl) (simp only: sd1 q0)
    then show "Q (scope_distance (events ?s8 r))"
      by (simp only: sd8 sd2)
  qed
  have zero_closed: "scope_distance_setter sc h e v r = 0"
    if "scope_distance (h r) = 0" for h :: "event_ref \<Rightarrow> event" and e v r
    using only_lowers_set [OF assms(2), of h r e v] that by simp
  have z2: "scope_distance (events ?s2 ev) = 0"
    unfolding sd2
    by (subst only_lowers_target [OF assms(2)]) (use assms(3) in \<open>auto simp: sd1\<close>)
  have z9: "scope_distance (events ?s9 ev) = 0"
  proof (rule queue_event_sd_invariant [where Q = "\<lambda>d. d = 0"])
    fix h :: "event_ref \<Rightarrow> event" and e v
    assume "scope_distance (h ev) = 0"
    then show "scope_distance_setter sc h e v ev = 0" by (rule zero_closed)
  next
    show "scope_distance (events ?s8 ev) = 0"
      by (simp only: sd8 z2)
  qed
  have lb: "- 1 \<le> scope_distance (events ?s9 r)" if "- 1 \<le> scope_distance (events s r)" for r
    by (rule inv [where Q = "\<lambda>d. - 1 \<le> d"]) (simp_all add: only_lowers_bound [OF assms(2)] that)
  have zs: "scope_distance (events ?s9 r) = 0" if "scope_distance (events s r) = 0" for r
    by (rule inv [where Q = "\<lambda>d. d = 0"]) (simp_all add: zero_closed that)
  from unf h9 qu fi z9 lb zs show ?thesis by blast
qed

lemma seed_events_no_hooks:
  assumes "scope_distance_only_lowers sc"
    and "fst (hook_modules sc s) = []"
    and "\<forall>ev \<in> set evs. - 1 \<le> scope_distance (events s ev)"
  shows "fst (seed_events sc evs s) = None \<and>
     incoming_event_queue (snd (seed_events sc evs s)) =
       incoming_event_queue s + mset (map (\<lambda>ev. (ev, no_kwargs)) evs) \<and>
     finished_init (snd (seed_events sc evs s)) = finished_init s \<and>
     (\<forall>ev \<in> set evs. scope_distance (events (snd (seed_events sc evs s)) ev) = 0) \<and>
     (\<forall>r. scope_distance (events s r) = 0 \<longrightarrow>
           scope_distance (events (snd (seed_events sc evs s)) r) = 0)"
  using assms(2,3)
proof (induction evs arbitrary: s)
  case Nil
  show ?case by (simp add: seed_events.simps)
next
  case (Cons ev evs)
  have b: "- 1 \<le> scope_distance (events s ev)"
    using Cons.prems(2) by simp
  obtain s9 where s9: "seed_events sc (ev # evs) s = seed_events sc evs s9"
    "fst (hook_modules sc s9) = []"
    "incoming_event_queue s9 = add_mset (ev, no_kwargs) (incoming_event_queue s)"
    "finished_init s9 = finished_init s"
    "scope_distance (events s9 ev) = 0"
    "\<forall>r. - 1 \<le> scope_distance (events s r) \<longrightarrow> - 1 \<le> scope_distance (events s9 r)"
    "\<forall>r. scope_distance (events s r) = 0 \<longrightarrow> scope_distance (events s9 r) = 0"
    using seed_events_no_hooks_step [OF Cons.prems(1) assms(1) b, of evs] by blast
  have p: "\<forall>e \<in> set evs. - 1 \<le> scope_distance (events s9 e)"
    using Cons.prems(2) s9(6) by simp
  note ih = Cons.IH [OF s9(2) p]
  show ?case
    unfolding s9(1)
    using ih s9(3,4,5,7) by simp
qed

section \<open>The claims\<close>

subsection \<open>C1: the scan-global fingerprint is never recorded\<close>

text \<open>
  Claim C1: the scan-global dedup step of the distributor is a check-and-add, so that of
  two events with equal canonical identity at most one is delivered to a module with
  \<^verbatim>\<open>accept_dupes=false\<close> whose \<^verbatim>\<open>_is_graph_important\<close> is false.

  The code calls \<^verbatim>\<open>is_outgoing_duplicate(event)\<close> without \<^verbatim>\<open>add=True\<close>, so the
  distributor only checks. In the concrete scan, events 3 and 4 have the same type and
  data and module 1 neither accepts duplicates nor finds them graph-important: after
  event 3 is distributed the outgoing tracker is still empty, and module 1 then
  receives event 4 as well. No call of \<^verbatim>\<open>distribute_event\<close> changes the outgoing
  tracker, whatever the scan, the state and the event.
\<close>

theorem outgoing_fingerprint_never_recorded:
  "hash_event ex_scan (events ex_state 3) = hash_event ex_scan (events ex_state 4) \<and>
   \<not> accept_dupes (mods ex_state 1) \<and>
   \<not> is_graph_important (mods ex_state 1) (events ex_state 3) \<and>
   \<not> is_graph_important (mods ex_state 1) (events ex_state 4) \<and>
   outgoing_dup_tracker ex_state = {} \<and>
   outgoing_dup_tracker (distribute_event ex_scan ex_state 3) = {} \<and>
   delivered (distribute_event ex_scan ex_state 3) = [(1, 3), (2, 3), (3, 3)] \<and>
   delivered (distribute_event ex_scan (distribute_event ex_scan ex_state 3) 4) =
     [(1, 3), (2, 3), (3, 3), (1, 4), (2, 4), (3, 4)] \<and>
   (\<forall>sc s ev. outgoing_dup_tracker (distribute_event sc s ev) = outgoing_dup_tracker s)"
proof -
  let ?s1 = "distribute_event ex_scan ex_state 3"
  have a: "hash_event ex_scan (events ex_state 3) = 817" "hash_event ex_scan (events ex_state 4) = 817"
    "\<not> accept_dupes (mods ex_state 1)"
    "\<not> is_graph_important (mods ex_state 1) (events ex_state 3)"
    "\<not> is_graph_important (mods ex_state 1) (events ex_state 4)"
    "outgoing_dup_tracker ex_state = {}" "delivered ex_state = []"
    by (simp_all add: hash_event_def ex_defs)
  have src: "source (events ex_state 3) = Some 1" "source (events ex_state 4) = Some 1"
    "source (events ex_state 1) \<noteq> None"
    by (simp_all add: ex_defs)
  have f: "filter (\<lambda>m. \<not> hook (mods ex_state m) \<and>
          ((817::int) \<notin> {} \<or> accept_dupes (mods ex_state m) \<or>
           is_graph_important (mods ex_state m) E)) (modules ex_scan) = [1, 2, 3]" for E
    by (simp add: ex_defs)
  have d1: "delivered ?s1 = [(1, 3), (2, 3), (3, 3)]"
    using distribute_event_delivered_src [OF src(1) src(3), of ex_scan]
    unfolding a f by simp
  have src1: "source (events ?s1 4) = Some 1" "source (events ?s1 1) \<noteq> None"
    using src by (simp_all add: distribute_event_source)
  have t1: "outgoing_dup_tracker ?s1 = {}" "mods ?s1 = mods ex_state"
    "hash_event ex_scan (events ?s1 4) = 817"
    by (simp_all add: distribute_event_frame distribute_event_hash a)
  have d2: "delivered (distribute_event ex_scan ?s1 4) =
     [(1, 3), (2, 3), (3, 3), (1, 4), (2, 4), (3, 4)]"
    using distribute_event_delivered_src [OF src1, of ex_scan]
    unfolding t1 d1 f by simp
  have g: "\<forall>sc s ev. outgoing_dup_tracker (distribute_event sc s ev) = outgoing_dup_tracker s"
    by (simp add: distribute_event_frame)
  from a t1(1) d1 d2 g show ?thesis by simp
qed

subsection \<open>C2: the scope distance of the seeds on the shared ingress\<close>

text \<open>
  Claim C2: after the seed step without hook modules, every seed event placed on the
  shared ingress queue has scope distance 0.

  \<^verbatim>\<open>init_events\<close> assigns 0 to the scope distance of each seed and then calls
  \<^verbatim>\<open>queue_event\<close>, which assigns the distance of the source plus 1. Both assignments
  go through the setter of \<^verbatim>\<open>Event.scope_distance\<close>. For every setter that only lowers
  a scope distance, and seeds whose distance is not set or non-negative at the start:
  when the scan's \<^verbatim>\<open>hook_modules\<close> is empty, the seed step runs to its end and sets
  the initialization flag, the root event and each of the target's events have been
  added to the shared ingress, and every one of them is on the shared ingress with
  scope distance 0 in the final state.
\<close>

theorem init_events_seed_scope_distance:
  assumes "fst (hook_modules sc s) = []"
    and "scope_distance_only_lowers sc"
    and "\<forall>ev \<in> set (root_event sc # target_events sc). - 1 \<le> scope_distance (events s ev)"
  shows "finished_init (init_events sc s) \<and>
     incoming_event_queue (init_events sc s) =
       incoming_event_queue s +
       mset (map (\<lambda>ev. (ev, no_kwargs)) (root_event sc # target_events sc)) \<and>
     (\<forall>ev \<in> set (root_event sc # target_events sc).
        (ev, no_kwargs) \<in># incoming_event_queue (init_events sc s) \<and>
        scope_distance (events (init_events sc s) ev) = 0)"
proof -
  let ?evs = "root_event sc # sort_key (\<lambda>e. length (data (events s e))) (target_events sc)"
  have p: "\<forall>ev \<in> set ?evs. - 1 \<le> scope_distance (events s ev)"
    using assms(3) by simp
  note se = seed_events_no_hooks [OF assms(2) assms(1) p]
  obtain s1 where r: "seed_events sc ?evs s = (None, s1)"
    using se by (cases "seed_events sc ?evs s") simp
  have ie: "init_events sc s = s1\<lparr>finished_init := True\<rparr>"
    using r by (simp add: init_events_def Let_def)
  have m: "mset (map (\<lambda>ev. (ev, no_kwargs)) ?evs) =
           mset (map (\<lambda>ev. (ev, no_kwargs)) (root_event sc # target_events sc))"
    by simp
  have qu: "incoming_event_queue (init_events sc s) =
       incoming_event_queue s +
       mset (map (\<lambda>ev. (ev, no_kwargs)) (root_event sc # target_events sc))"
    using se unfolding ie r m [symmetric] by simp
  have z: "\<forall>ev \<in> set (root_event sc # target_events sc).
             scope_distance (events (init_events sc s) ev) = 0"
    using se unfolding ie r by simp
  have mem: "\<forall>ev \<in> set (root_event sc # target_events sc).
             (ev, no_kwargs) \<in># incoming_event_queue (init_events sc s)"
    unfolding qu by auto
  from ie qu z mem show ?thesis by simp
qed

text \<open>
  The scan about to be seeded: no hook module, and both seeds start with no distance
  set. After the seed step both are on the queue with scope distance 0.
\<close>

theorem init_events_seed_scope_distance_witness:
  "fst (hook_modules seed_scan seed_state) = [] \<and>
   scope_distance (events seed_state 0) = - 1 \<and> scope_distance (events seed_state 1) = - 1 \<and>
   finished_init (init_events seed_scan seed_state) \<and>
   incoming_event_queue (init_events seed_scan seed_state) = {#(0, no_kwargs), (1, no_kwargs)#} \<and>
   scope_distance (events (init_events seed_scan seed_state) 0) = 0 \<and>
   scope_distance (events (init_events seed_scan seed_state) 1) = 0"
proof -
  have h: "fst (hook_modules seed_scan seed_state) = []"
    by (simp add: hook_modules_def modules_by_priority_def Let_def seed_defs ex_defs)
  have b: "\<forall>ev \<in> set (root_event seed_scan # target_events seed_scan).
             - 1 \<le> scope_distance (events seed_state ev)"
    by (simp add: seed_defs ex_defs)
  have l: "root_event seed_scan # target_events seed_scan = [0, 1]"
    "incoming_event_queue seed_state = {#}"
    "scope_distance (events seed_state 0) = - 1" "scope_distance (events seed_state 1) = - 1"
    by (simp_all add: seed_defs ex_defs)
  show ?thesis
    using init_events_seed_scope_distance [OF h seed_scan_only_lowers b] h
    unfolding l by simp
qed

subsection \<open>C3: the precheck filter\<close>

text \<open>
  Claim C3, as amended: the precheck returns false exactly when the event is a dummy,
  is equal to its own source, or is an incoming duplicate while not graph-important; a
  graph-important event that is neither a dummy nor equal to its source is accepted
  without the incoming dedup check, and the state (the tracker with it) is unchanged;
  and whenever the precheck accepts an event that is not graph-important, the event's
  incoming fingerprint has been added to the tracker.
\<close>

theorem event_precheck_spec:
  "(fst (event_precheck sc s ev) = False \<longleftrightarrow>
      dummy (events s ev) \<or>
      (case get_source s ev of None \<Rightarrow> False
       | Some src \<Rightarrow> event_eq sc (events s ev) (events s src)) \<or>
      (fst (is_incoming_duplicate sc s ev False) \<and> \<not> graph_important (events s ev))) \<and>
   (graph_important (events s ev) \<and> \<not> dummy (events s ev) \<and>
    \<not> (case get_source s ev of None \<Rightarrow> False
        | Some src \<Rightarrow> event_eq sc (events s ev) (events s src)) \<longrightarrow>
      event_precheck sc s ev = (True, s)) \<and>
   (fst (event_precheck sc s ev) \<and> \<not> graph_important (events s ev) \<longrightarrow>
      incoming_dup_tracker (snd (event_precheck sc s ev)) =
        insert (per_producer_fingerprint sc s ev) (incoming_dup_tracker s))"
proof (intro conjI impI)
  show "fst (event_precheck sc s ev) = False \<longleftrightarrow>
      dummy (events s ev) \<or>
      (case get_source s ev of None \<Rightarrow> False
       | Some src \<Rightarrow> event_eq sc (events s ev) (events s src)) \<or>
      (fst (is_incoming_duplicate sc s ev False) \<and> \<not> graph_important (events s ev))"
    unfolding event_precheck_result is_incoming_duplicate_result by blast
next
  assume "graph_important (events s ev) \<and> \<not> dummy (events s ev) \<and>
    \<not> (case get_source s ev of None \<Rightarrow> False
        | Some src \<Rightarrow> event_eq sc (events s ev) (events s src))"
  then show "event_precheck sc s ev = (True, s)"
    by (simp add: event_precheck_bypass)
next
  assume "fst (event_precheck sc s ev) \<and> \<not> graph_important (events s ev)"
  then show "incoming_dup_tracker (snd (event_precheck sc s ev)) =
        insert (per_producer_fingerprint sc s ev) (incoming_dup_tracker s)"
    unfolding event_precheck_result event_precheck_tracker by simp
qed

text \<open>
  Event 3 is not graph-important: it is accepted and its fingerprint is the tracker's
  only entry afterwards. Event 2 is graph-important: it is accepted and nothing changes.
\<close>

theorem event_precheck_spec_witness:
  "\<not> graph_important (events ex_state 3) \<and>
   fst (event_precheck ex_scan ex_state 3) \<and>
   incoming_dup_tracker (snd (event_precheck ex_scan ex_state 3)) = {81710} \<and>
   graph_important (events ex_state 2) \<and>
   event_precheck ex_scan ex_state 2 = (True, ex_state)"
proof -
  have a: "\<not> graph_important (events ex_state 3)" "\<not> dummy (events ex_state 3)"
    "\<not> (case get_source ex_state 3 of None \<Rightarrow> False
        | Some src \<Rightarrow> event_eq ex_scan (events ex_state 3) (events ex_state src))"
    "\<not> fst (is_incoming_duplicate ex_scan ex_state 3 False)"
    "per_producer_fingerprint ex_scan ex_state 3 = 81710"
    "incoming_dup_tracker ex_state = {}"
    by (simp_all add: get_source_def event_eq_def hash_event_def is_incoming_duplicate_def
          per_producer_fingerprint_def Let_def ex_defs)
  have b: "graph_important (events ex_state 2)" "\<not> dummy (events ex_state 2)"
    "\<not> (case get_source ex_state 2 of None \<Rightarrow> False
        | Some src \<Rightarrow> event_eq ex_scan (events ex_state 2) (events ex_state src))"
    by (simp_all add: get_source_def event_eq_def hash_event_def ex_defs)
  have acc: "fst (event_precheck ex_scan ex_state 3)"
    using event_precheck_spec [of ex_scan ex_state 3, THEN conjunct1] a(1-4) by simp
  show ?thesis
    using a(1,5,6) b acc
      event_precheck_spec [of ex_scan ex_state 3, THEN conjunct2, THEN conjunct2]
      event_precheck_spec [of ex_scan ex_state 2, THEN conjunct2, THEN conjunct1]
    by simp
qed

text \<open>
  The claim as stated ("whenever precheck accepts an event, the event's incoming
  fingerprint has been added to the tracker") fails for the graph-important event 2:
  it is accepted, and its fingerprint is not in the tracker afterwards.
\<close>

theorem precheck_accepts_without_fingerprint:
  "fst (event_precheck ex_scan ex_state 2) \<and>
   per_producer_fingerprint ex_scan ex_state 2
     \<notin> incoming_dup_tracker (snd (event_precheck ex_scan ex_state 2))"
  by (simp add: event_precheck_def get_source_def event_eq_def hash_event_def
        per_producer_fingerprint_def ex_defs)

subsection \<open>C4: ancestor promotion\<close>

text \<open>
  Claim C4: let \<open>src\<close> be the source of the event. When the promotion step starts (after
  the report-distance step), if \<open>src\<close> is internal and the event is not internal or is
  graph-important, then at the end of \<^verbatim>\<open>distribute_event\<close>: \<open>src\<close> is no longer internal
  when its scope distance is within the report distance (and still internal
  otherwise); \<open>src\<close> is graph-important; if \<open>src\<close> was not graph-important (and has a
  source itself, as every event of the data model has) it has been put once more onto the
  shared ingress; and if \<open>src\<close> was already graph-important the shared ingress is
  unchanged.
\<close>

theorem ancestor_promotion_effect:
  assumes "source (events s ev) = Some src"
    and "internal (events (report_distance_internalization sc s ev) src)"
    and "\<not> internal (events (report_distance_internalization sc s ev) ev) \<or>
         graph_important (events (report_distance_internalization sc s ev) ev)"
  shows "(scope_distance (events (report_distance_internalization sc s ev) src)
            \<le> scope_report_distance sc \<longrightarrow>
          \<not> internal (events (distribute_event sc s ev) src)) \<and>
     (scope_report_distance sc
            < scope_distance (events (report_distance_internalization sc s ev) src) \<longrightarrow>
          internal (events (distribute_event sc s ev) src)) \<and>
     graph_important (events (distribute_event sc s ev) src) \<and>
     (\<not> graph_important (events (report_distance_internalization sc s ev) src) \<and>
      source (events s src) \<noteq> None \<longrightarrow>
          incoming_event_queue (distribute_event sc s ev) =
            add_mset (src, no_kwargs) (incoming_event_queue s)) \<and>
     (graph_important (events (report_distance_internalization sc s ev) src) \<longrightarrow>
          incoming_event_queue (distribute_event sc s ev) = incoming_event_queue s)"
proof -
  let ?s1 = "report_distance_internalization sc s ev"
  have src: "source (events ?s1 ev) = Some src"
    using assms(1) by (simp add: rdi_source)
  have i: "internal (events (distribute_event sc s ev) src) =
     (scope_report_distance sc < scope_distance (events ?s1 src))"
    unfolding distribute_event_events
    by (rule ap_promote_internal [OF src assms(2) assms(3)])
  have g: "graph_important (events (distribute_event sc s ev) src)"
    unfolding distribute_event_events
    by (rule ap_promote_graph_important [OF src assms(2) assms(3)])
  have q1: "incoming_event_queue (distribute_event sc s ev) =
            add_mset (src, no_kwargs) (incoming_event_queue s)"
    if "\<not> graph_important (events ?s1 src)" and "source (events s src) \<noteq> None"
  proof -
    from that(2) obtain g where "source (events ?s1 src) = Some g"
      by (auto simp: rdi_source)
    from ap_requeue_queue [OF src assms(2) assms(3) that(1) this]
    show ?thesis
      by (simp add: distribute_event_queue rdi_frame)
  qed
  have q2: "incoming_event_queue (distribute_event sc s ev) = incoming_event_queue s"
    if "graph_important (events ?s1 src)"
    using ap_no_requeue [OF src that] by (simp add: distribute_event_queue rdi_frame)
  from i g q1 q2 show ?thesis by auto
qed

text \<open>
  Event 2 is graph-important and its source 1 is internal, within the report distance
  and not yet graph-important: the source is made visible, marked and queued.
\<close>

theorem ancestor_promotion_effect_witness:
  "source (events ex_state 2) = Some 1 \<and>
   internal (events (report_distance_internalization ex_scan ex_state 2) 1) \<and>
   graph_important (events (report_distance_internalization ex_scan ex_state 2) 2) \<and>
   \<not> graph_important (events (report_distance_internalization ex_scan ex_state 2) 1) \<and>
   \<not> internal (events (distribute_event ex_scan ex_state 2) 1) \<and>
   graph_important (events (distribute_event ex_scan ex_state 2) 1) \<and>
   incoming_event_queue (distribute_event ex_scan ex_state 2) = {#(1, no_kwargs)#}"
proof -
  have h1: "source (events ex_state 2) = Some 1"
    by (simp add: ex_defs)
  have h2: "internal (events (report_distance_internalization ex_scan ex_state 2) 1)"
    by (simp add: rdi_events ex_defs)
  have h3: "\<not> internal (events (report_distance_internalization ex_scan ex_state 2) 2) \<or>
         graph_important (events (report_distance_internalization ex_scan ex_state 2) 2)"
    by (simp add: rdi_events ex_defs)
  have h4: "\<not> graph_important (events (report_distance_internalization ex_scan ex_state 2) 1)"
    "graph_important (events (report_distance_internalization ex_scan ex_state 2) 2)"
    "scope_distance (events (report_distance_internalization ex_scan ex_state 2) 1)
       \<le> scope_report_distance ex_scan"
    "source (events ex_state 1) \<noteq> None" "incoming_event_queue ex_state = {#}"
    by (simp_all add: rdi_events ex_defs)
  show ?thesis
    using h1 h2 h4 ancestor_promotion_effect [OF h1 h2 h3]
    by simp
qed

subsection \<open>C5: report-distance internalization\<close>

text \<open>
  Claim C5: the report-distance step sets \<^verbatim>\<open>event.internal\<close> to true exactly when the
  event is not \<^verbatim>\<open>always_emit\<close> and its scope distance exceeds the report distance, and
  leaves it unchanged otherwise. The same holds from the start to the end of
  \<^verbatim>\<open>distribute_event\<close> for every event that is not its own source object: the
  precheck rejects an event equal to its source, so no event that enters the
  distributor is its own source.
\<close>

theorem report_distance_internalization_internal:
  "internal (events (report_distance_internalization sc s ev) ev) =
     (if \<not> always_emit (events s ev) \<and> scope_report_distance sc < scope_distance (events s ev)
      then True else internal (events s ev)) \<and>
   (source (events s ev) \<noteq> Some ev \<longrightarrow>
      internal (events (distribute_event sc s ev) ev) =
        (if \<not> always_emit (events s ev) \<and> scope_report_distance sc < scope_distance (events s ev)
         then True else internal (events s ev)))"
proof (intro conjI impI)
  show step: "internal (events (report_distance_internalization sc s ev) ev) =
     (if \<not> always_emit (events s ev) \<and> scope_report_distance sc < scope_distance (events s ev)
      then True else internal (events s ev))"
    by (auto simp: rdi_events)
  assume "source (events s ev) \<noteq> Some ev"
  then have "source (events (report_distance_internalization sc s ev) ev) \<noteq> Some ev"
    by (simp add: rdi_source)
  then have "internal (events (distribute_event sc s ev) ev) =
     internal (events (report_distance_internalization sc s ev) ev)"
    by (simp add: distribute_event_events ancestor_promotion_internal)
  with step show "internal (events (distribute_event sc s ev) ev) =
        (if \<not> always_emit (events s ev) \<and> scope_report_distance sc < scope_distance (events s ev)
         then True else internal (events s ev))"
    by simp
qed

text \<open>
  Event 8 is at distance 2, beyond the report distance 1: it becomes internal. Event 3
  is at distance 1 and stays visible.
\<close>

theorem report_distance_internalization_internal_witness:
  "source (events ex_state 8) \<noteq> Some 8 \<and>
   \<not> internal (events ex_state 8) \<and>
   internal (events (report_distance_internalization ex_scan ex_state 8) 8) \<and>
   internal (events (distribute_event ex_scan ex_state 8) 8) \<and>
   source (events ex_state 3) \<noteq> Some 3 \<and>
   \<not> internal (events (distribute_event ex_scan ex_state 3) 3)"
proof -
  have h8: "source (events ex_state 8) \<noteq> Some 8" and h3: "source (events ex_state 3) \<noteq> Some 3"
    by (simp_all add: ex_defs)
  show ?thesis
    using h8 h3 report_distance_internalization_internal [of ex_scan ex_state 8]
      report_distance_internalization_internal [of ex_scan ex_state 3]
    by (simp add: ex_defs)
qed

subsection \<open>C6: the dispatcher's queue\_event\<close>

text \<open>
  Claim C6, amended: for an event with a source, \<^verbatim>\<open>queue_event\<close> returns normally.
  If the event's scope distance is greater than 0 and the event is not both whitelisted
  and un-blacklisted, the sum of its \<^verbatim>\<open>module_priority\<close> and its scope distance is
  assigned to \<^verbatim>\<open>module_priority\<close>, and what is stored is what the setter of the
  property makes of that sum; otherwise the priority is unchanged. Then the scope
  distance of the source plus 1 is assigned to the event's scope distance, through the
  setter; then the pair of the event and the keyword arguments is added to the shared
  ingress. With a setter that only lowers, the event's distance afterwards is the
  source's plus 1 if it was not set and the smaller of the two otherwise, and no event's
  distance that was set is raised or becomes negative.
\<close>

theorem queue_event_spec:
  assumes "source (events s ev) = Some src"
  shows "queue_event sc s (Some ev) kw =
       (None, (set_scope_distance sc ev (scope_distance (events s src) + 1)
                 (if 0 < scope_distance (events s ev) \<and>
                     \<not> (whitelisted sc (events s ev) \<and> \<not> blacklisted sc (events s ev))
                  then set_module_priority sc ev
                         (module_priority (events s ev) + scope_distance (events s ev)) s
                  else s))
              \<lparr>incoming_event_queue := add_mset (ev, kw) (incoming_event_queue s)\<rparr>) \<and>
     module_priority (events (snd (queue_event sc s (Some ev) kw)) ev) =
       (if 0 < scope_distance (events s ev) \<and>
           \<not> (whitelisted sc (events s ev) \<and> \<not> blacklisted sc (events s ev))
        then module_priority_setter sc
               (module_priority (events s ev) + scope_distance (events s ev))
        else module_priority (events s ev)) \<and>
     incoming_event_queue (snd (queue_event sc s (Some ev) kw)) =
       add_mset (ev, kw) (incoming_event_queue s) \<and>
     (scope_distance_only_lowers sc \<and> - 1 \<le> scope_distance (events s ev) \<and>
      - 1 \<le> scope_distance (events s src) \<longrightarrow>
        scope_distance (events (snd (queue_event sc s (Some ev) kw)) ev) =
          (if scope_distance (events s ev) = - 1 then scope_distance (events s src) + 1
           else min (scope_distance (events s ev)) (scope_distance (events s src) + 1))) \<and>
     (scope_distance_only_lowers sc \<longrightarrow>
        (\<forall>r. 0 \<le> scope_distance (events s r) \<longrightarrow>
           0 \<le> scope_distance (events (snd (queue_event sc s (Some ev) kw)) r) \<and>
           scope_distance (events (snd (queue_event sc s (Some ev) kw)) r)
             \<le> scope_distance (events s r)))"
proof -
  have q: "incoming_event_queue (snd (queue_event sc s (Some ev) kw)) =
       add_mset (ev, kw) (incoming_event_queue s)"
    unfolding queue_event_Some [OF assms] by (simp add: helper_defs)
  show ?thesis
    using queue_event_Some [OF assms, of sc kw] queue_event_module_priority [OF assms, of sc kw] q
      queue_event_scope_distance [OF assms, of sc kw]
      queue_event_never_raises_distance [of sc s _ "Some ev" kw]
    by blast
qed

text \<open>
  In the concrete scan, event 11 (distance 1, not whitelisted, priority 5, source at
  distance 0) is queued with priority 5 and distance 1, and event 13, whose distance is
  not set, is queued with distance 1.
\<close>

theorem queue_event_spec_witness:
  "source (events ex_state 11) = Some 0 \<and> scope_distance_only_lowers ex_scan \<and>
   fst (queue_event ex_scan ex_state (Some 11) no_kwargs) = None \<and>
   module_priority (events (snd (queue_event ex_scan ex_state (Some 11) no_kwargs)) 11) = 5 \<and>
   scope_distance (events (snd (queue_event ex_scan ex_state (Some 11) no_kwargs)) 11) = 1 \<and>
   incoming_event_queue (snd (queue_event ex_scan ex_state (Some 11) no_kwargs)) =
     {#(11, no_kwargs)#} \<and>
   source (events ex_state 13) = Some 0 \<and> scope_distance (events ex_state 13) = - 1 \<and>
   scope_distance (events (snd (queue_event ex_scan ex_state (Some 13) no_kwargs)) 13) = 1"
proof -
  have h: "source (events ex_state 11) = Some 0" and h': "source (events ex_state 13) = Some 0"
    by (simp_all add: ex_defs)
  have v: "scope_distance (events ex_state 11) = 1" "module_priority (events ex_state 11) = 5"
    "scope_distance (events ex_state 0) = 0" "\<not> whitelisted ex_scan (events ex_state 11)"
    "incoming_event_queue ex_state = {#}" "module_priority_setter ex_scan 6 = 5"
    "scope_distance (events ex_state 13) = - 1"
    by (simp_all add: ex_defs setter_defs)
  have a: "fst (queue_event ex_scan ex_state (Some 11) no_kwargs) = None"
    using queue_event_spec [OF h, of ex_scan no_kwargs, THEN conjunct1] by simp
  have b: "module_priority (events (snd (queue_event ex_scan ex_state (Some 11) no_kwargs)) 11) = 5"
    using queue_event_spec [OF h, of ex_scan no_kwargs, THEN conjunct2, THEN conjunct1]
    by (simp add: v)
  have c: "incoming_event_queue (snd (queue_event ex_scan ex_state (Some 11) no_kwargs)) =
     {#(11, no_kwargs)#}"
    using queue_event_spec [OF h, of ex_scan no_kwargs, THEN conjunct2, THEN conjunct2,
        THEN conjunct1]
    by (simp add: v)
  have d: "scope_distance (events (snd (queue_event ex_scan ex_state (Some 11) no_kwargs)) 11) = 1"
    using queue_event_spec [OF h, of ex_scan no_kwargs, THEN conjunct2, THEN conjunct2,
        THEN conjunct2, THEN conjunct1] ex_scan_only_lowers
    by (simp add: v)
  have e: "scope_distance (events (snd (queue_event ex_scan ex_state (Some 13) no_kwargs)) 13) = 1"
    using queue_event_spec [OF h', of ex_scan no_kwargs, THEN conjunct2, THEN conjunct2,
        THEN conjunct2, THEN conjunct1] ex_scan_only_lowers
    by (simp add: v)
  from h h' ex_scan_only_lowers a b c d e v(7) show ?thesis by simp
qed

text \<open>
  The claim as given says that the distance stored is the source's plus 1 and that the
  priority grows by the distance. In the concrete scan the URL event 9, whitelisted and
  at distance 0 with its source at distance 0, keeps distance 0 and not 1; event 11, at
  distance 1 and not whitelisted with priority 5, keeps priority 5 and not 6.
\<close>

theorem queue_event_keeps_lower_distance:
  "source (events ex_state 9) = Some 0 \<and>
   scope_distance (events (snd (queue_event ex_scan ex_state (Some 9) no_kwargs)) 9)
     \<noteq> scope_distance (events ex_state 0) + 1 \<and>
   source (events ex_state 11) = Some 0 \<and> 0 < scope_distance (events ex_state 11) \<and>
   \<not> whitelisted ex_scan (events ex_state 11) \<and>
   module_priority (events (snd (queue_event ex_scan ex_state (Some 11) no_kwargs)) 11)
     \<noteq> module_priority (events ex_state 11) + scope_distance (events ex_state 11)"
proof -
  have h9: "source (events ex_state 9) = Some 0" and h11: "source (events ex_state 11) = Some 0"
    by (simp_all add: ex_defs)
  have v: "scope_distance (events ex_state 11) = 1" "module_priority (events ex_state 11) = 5"
    "scope_distance (events ex_state 0) = 0" "\<not> whitelisted ex_scan (events ex_state 11)"
    "module_priority_setter ex_scan 6 = 5" "scope_distance (events ex_state 9) = 0"
    by (simp_all add: ex_defs setter_defs)
  have a: "scope_distance (events (snd (queue_event ex_scan ex_state (Some 9) no_kwargs)) 9) = 0"
    using queue_event_scope_distance [OF h9 ex_scan_only_lowers, of no_kwargs]
    by (simp add: v)
  have b: "module_priority (events (snd (queue_event ex_scan ex_state (Some 11) no_kwargs)) 11) = 5"
    using queue_event_module_priority [OF h11, of ex_scan no_kwargs]
    by (simp add: v)
  from h9 h11 a b v show ?thesis by simp
qed

subsection \<open>C7: fan-out\<close>

text \<open>
  Claim C7: when the event and its source both have a source, the events pushed into
  module sinks by \<^verbatim>\<open>distribute_event\<close> are, in the order of \<^verbatim>\<open>scan.modules\<close>, one
  delivery of the event to each module that is not a hook module and for which the
  event's identity is not in the outgoing tracker, or the module accepts duplicates,
  or the module's \<^verbatim>\<open>_is_graph_important\<close> holds of the event. So a module of the scan
  receives the event if and only if it is such a module, and a hook module never does.
\<close>

theorem fan_out_delivery:
  assumes "source (events s ev) = Some src" and "source (events s src) \<noteq> None"
  shows "delivered (distribute_event sc s ev) = delivered s @ map (\<lambda>m. (m, ev))
       (filter (\<lambda>m. \<not> hook (mods s m) \<and>
          (hash_event sc (events s ev) \<notin> outgoing_dup_tracker s \<or> accept_dupes (mods s m) \<or>
           is_graph_important (mods s m) (events (distribute_event sc s ev) ev))) (modules sc)) \<and>
     (\<forall>m. (m, ev) \<in> set (drop (length (delivered s)) (delivered (distribute_event sc s ev))) \<longleftrightarrow>
          m \<in> set (modules sc) \<and> \<not> hook (mods s m) \<and>
          (hash_event sc (events s ev) \<notin> outgoing_dup_tracker s \<or> accept_dupes (mods s m) \<or>
           is_graph_important (mods s m) (events (distribute_event sc s ev) ev)))"
proof -
  let ?s1 = "report_distance_internalization sc s ev"
  have "fst (ancestor_promotion sc ?s1 ev) = None"
    using assms by (intro ancestor_promotion_returns [where src = src]) (simp_all add: rdi_source)
  from distribute_event_delivered [OF this]
  have eq: "delivered (distribute_event sc s ev) = delivered s @ map (\<lambda>m. (m, ev))
       (filter (\<lambda>m. \<not> hook (mods s m) \<and>
          (hash_event sc (events s ev) \<notin> outgoing_dup_tracker s \<or> accept_dupes (mods s m) \<or>
           is_graph_important (mods s m) (events (distribute_event sc s ev) ev))) (modules sc))" .
  have "\<forall>m. (m, ev) \<in> set (drop (length (delivered s)) (delivered (distribute_event sc s ev))) \<longleftrightarrow>
          m \<in> set (modules sc) \<and> \<not> hook (mods s m) \<and>
          (hash_event sc (events s ev) \<notin> outgoing_dup_tracker s \<or> accept_dupes (mods s m) \<or>
           is_graph_important (mods s m) (events (distribute_event sc s ev) ev))"
    by (subst eq) auto
  with eq show ?thesis by blast
qed

text \<open>
  Event 2 is graph-important and its identity is already in the outgoing tracker: only
  module 2 (which accepts duplicates) and the output module 3 receive it. Event 3 is
  new: the three modules that are not hooks receive it, and the hook module 4 does not.
\<close>

theorem fan_out_delivery_witness:
  "source (events ex_state_seen 2) = Some 1 \<and> source (events ex_state_seen 1) \<noteq> None \<and>
   hash_event ex_scan (events ex_state_seen 2) \<in> outgoing_dup_tracker ex_state_seen \<and>
   delivered (distribute_event ex_scan ex_state_seen 2) = [(2, 2), (3, 2)] \<and>
   source (events ex_state 3) = Some 1 \<and> source (events ex_state 1) \<noteq> None \<and>
   delivered (distribute_event ex_scan ex_state 3) = [(1, 3), (2, 3), (3, 3)]"
proof -
  have h1: "source (events ex_state_seen 2) = Some 1" and h2: "source (events ex_state_seen 1) \<noteq> None"
    and h3: "source (events ex_state 3) = Some 1" and h4: "source (events ex_state 1) \<noteq> None"
    by (simp_all add: ex_defs)
  have g: "graph_important (events (distribute_event ex_scan ex_state_seen 2) 2)"
    unfolding distribute_event_events
    by (simp add: ancestor_promotion_def queue_event_def rdi_events helper_defs Let_def ex_defs)
  have d: "hash_event ex_scan (events ex_state_seen 2) \<in> outgoing_dup_tracker ex_state_seen"
    by (simp add: hash_event_def ex_defs)
  have f1: "filter (\<lambda>m. \<not> hook (mods ex_state_seen m) \<and>
          (hash_event ex_scan (events ex_state_seen 2) \<notin> outgoing_dup_tracker ex_state_seen \<or>
           accept_dupes (mods ex_state_seen m) \<or>
           is_graph_important (mods ex_state_seen m) E)) (modules ex_scan) = [2, 3]"
    if "graph_important E" for E
    using that by (simp add: hash_event_def ex_defs)
  have f2: "filter (\<lambda>m. \<not> hook (mods ex_state m) \<and>
          (hash_event ex_scan (events ex_state 3) \<notin> outgoing_dup_tracker ex_state \<or>
           accept_dupes (mods ex_state m) \<or>
           is_graph_important (mods ex_state m) E)) (modules ex_scan) = [1, 2, 3]" for E
    by (simp add: hash_event_def ex_defs)
  have e: "delivered ex_state_seen = []" "delivered ex_state = []"
    by (simp_all add: ex_defs)
  have t1: "delivered (distribute_event ex_scan ex_state_seen 2) = [(2, 2), (3, 2)]"
    using fan_out_delivery [OF h1 h2, of ex_scan, THEN conjunct1]
    unfolding f1 [OF g] e by simp
  have t2: "delivered (distribute_event ex_scan ex_state 3) = [(1, 3), (2, 3), (3, 3)]"
    using fan_out_delivery [OF h3 h4, of ex_scan, THEN conjunct1]
    unfolding f2 e by simp
  from h1 h2 h3 h4 d t1 t2 show ?thesis by blast
qed

subsection \<open>C8: the incoming dedup check and its tracker\<close>

text \<open>
  Claim C8: \<^verbatim>\<open>is_incoming_duplicate\<close> returns true if and only if the event's
  per-producer fingerprint is already in the incoming tracker and the producer has
  \<^verbatim>\<open>suppress_dupes\<close> (true when absent); with \<^verbatim>\<open>add\<close> the fingerprint is inserted,
  without it the tracker is unchanged; and the tracker before any operation, or any
  sequence of operations, of the dispatcher is a subset of the tracker after it. The
  methods of the manager that are not among the operations (\<^verbatim>\<open>kill_module\<close>,
  \<^verbatim>\<open>modules_status\<close> and the read-only properties) do not mention the tracker.
\<close>

theorem incoming_dedup_spec:
  "fst (is_incoming_duplicate sc s ev add) =
     (per_producer_fingerprint sc s ev \<in> incoming_dup_tracker s \<and> producer_suppress_dupes s ev) \<and>
   incoming_dup_tracker (snd (is_incoming_duplicate sc s ev add)) =
     (if add then insert (per_producer_fingerprint sc s ev) (incoming_dup_tracker s)
      else incoming_dup_tracker s) \<and>
   incoming_dup_tracker s \<subseteq> incoming_dup_tracker (run_operation sc s op) \<and>
   incoming_dup_tracker s \<subseteq> incoming_dup_tracker (run_operations sc s ops)"
  by (simp add: is_incoming_duplicate_result is_incoming_duplicate_state
        run_operation_tracker run_operations_tracker)

text \<open>
  The first check of event 3 answers no and records the fingerprint 81710; the second
  answers yes; the fingerprint is still there after an emit, a distribution and a
  seed step.
\<close>

theorem incoming_dedup_spec_witness:
  "\<not> fst (is_incoming_duplicate ex_scan ex_state 3 True) \<and>
   incoming_dup_tracker (snd (is_incoming_duplicate ex_scan ex_state 3 True)) = {81710} \<and>
   fst (is_incoming_duplicate ex_scan (snd (is_incoming_duplicate ex_scan ex_state 3 True)) 3 True) \<and>
   {81710} \<subseteq> incoming_dup_tracker
      (run_operations ex_scan (snd (is_incoming_duplicate ex_scan ex_state 3 True))
         [EmitEvent 3 no_kwargs, DistributeEvent 2, InitEvents])"
proof -
  let ?s1 = "snd (is_incoming_duplicate ex_scan ex_state 3 True)"
  have a: "per_producer_fingerprint ex_scan ex_state 3 = 81710"
    "incoming_dup_tracker ex_state = {}" "producer_suppress_dupes ex_state 3"
    by (simp_all add: per_producer_fingerprint_def producer_suppress_dupes_def hash_event_def
          ex_defs)
  have s1: "?s1 = ex_state\<lparr>incoming_dup_tracker := {81710}\<rparr>"
    by (simp add: is_incoming_duplicate_state a)
  have b: "per_producer_fingerprint ex_scan ?s1 3 = 81710" "producer_suppress_dupes ?s1 3"
    unfolding s1
    by (simp_all add: per_producer_fingerprint_def producer_suppress_dupes_def hash_event_def
          ex_defs)
  have t: "incoming_dup_tracker ?s1 = {81710}"
    unfolding s1 by simp
  have r1: "\<not> fst (is_incoming_duplicate ex_scan ex_state 3 True)"
    using incoming_dedup_spec [of ex_scan ex_state 3 True InitEvents "[]", THEN conjunct1] a
    by simp
  have r2: "fst (is_incoming_duplicate ex_scan ?s1 3 True)"
    using incoming_dedup_spec [of ex_scan ?s1 3 True InitEvents "[]", THEN conjunct1] b t
    by simp
  have r3: "incoming_dup_tracker ?s1 \<subseteq> incoming_dup_tracker
      (run_operations ex_scan ?s1 [EmitEvent 3 no_kwargs, DistributeEvent 2, InitEvents])"
    using incoming_dedup_spec [of ex_scan ?s1 3 True InitEvents
        "[EmitEvent 3 no_kwargs, DistributeEvent 2, InitEvents]"]
    by blast
  from r1 r2 r3 t show ?thesis by simp
qed

subsection \<open>C9: abort\_if in the slow emit path\<close>

text \<open>
  Claim C9: in \<^verbatim>\<open>_emit_event\<close>, for an event that is not blacklisted and a supplied
  \<^verbatim>\<open>abort_if\<close>, the callable is run on the state after scope shepherding. The result
  is the first element if the value returned unpacks into two, and the value itself
  otherwise; the reason is the second element, or absent; a callable that raises gives
  the result \<^verbatim>\<open>False\<close>, the exception being absorbed. If the result is truthy, the
  message with the reason is logged and the function returns: nothing is delivered,
  queued or absorbed by the word cloud, and the events are as the callable left them.
  If the result is not truthy, and so whenever the callable raised, the success
  callback, if any, is run and the event is passed to \<^verbatim>\<open>distribute_event\<close>; when the
  event's source and the source of that source exist, the loop of the distributor
  delivers the event to every non-hook module that the fan-out rule selects.
\<close>

theorem abort_if_semantics:
  assumes "\<not> blacklisted sc (events s ev)" and "''blacklisted'' \<notin> tags (events s ev)"
    and "abort_if kw = Some f"
    and "f (events (scope_shepherding sc (logmsg Debug (Emitting ev) s) ev)) ev = (heap, r)"
    and "s2 = (scope_shepherding sc (logmsg Debug (Emitting ev) s) ev)\<lparr>events := heap\<rparr>"
    and "s3 = (case on_success_callback kw of
                 None \<Rightarrow> s2
               | Some g \<Rightarrow> snd (run_callback g ev s2))"
    and "result = (case r of
                     Inl x \<Rightarrow> PyBool False
                   | Inr v \<Rightarrow> (case unpack_pair v of Some (a, b) \<Rightarrow> a | None \<Rightarrow> v))"
    and "reason = (case r of
                     Inl x \<Rightarrow> None
                   | Inr v \<Rightarrow> (case unpack_pair v of Some (a, b) \<Rightarrow> Some b | None \<Rightarrow> None))"
  shows "(truthy result \<longrightarrow>
        emit_event_slow sc s ev kw =
          logmsg Debug (EmitFinished ev) (logmsg Verbose (NotRaising ev reason) s2) \<and>
        delivered (emit_event_slow sc s ev kw) = delivered s \<and>
        incoming_event_queue (emit_event_slow sc s ev kw) = incoming_event_queue s \<and>
        word_cloud (emit_event_slow sc s ev kw) = word_cloud s \<and>
        events (emit_event_slow sc s ev kw) = heap) \<and>
     (\<not> truthy result \<longrightarrow>
        emit_event_slow sc s ev kw =
          logmsg Debug (EmitFinished ev) (distribute_event sc s3 ev) \<and>
        (\<forall>src. source (events s3 ev) = Some src \<and> source (events s3 src) \<noteq> None \<longrightarrow>
           delivered (emit_event_slow sc s ev kw) =
             delivered s @ map (\<lambda>m. (m, ev))
               (filter (\<lambda>m. \<not> hook (mods s m) \<and>
                  (hash_event sc (events s3 ev) \<notin> outgoing_dup_tracker s \<or>
                   accept_dupes (mods s m) \<or>
                   is_graph_important (mods s m) (events (distribute_event sc s3 ev) ev)))
                (modules sc)))) \<and>
     ((\<exists>x. r = Inl x) \<longrightarrow> \<not> truthy result) \<and>
     (\<forall>a b. r = Inr (PyTuple [a, b]) \<longrightarrow> result = a \<and> reason = Some b) \<and>
     (\<forall>v. r = Inr v \<and> unpack_pair v = None \<longrightarrow> result = v \<and> reason = None)"
proof -
  let ?s1 = "scope_shepherding sc (logmsg Debug (Emitting ev) s) ev"
  have fr2: "delivered s2 = delivered s" "mods s2 = mods s"
    "outgoing_dup_tracker s2 = outgoing_dup_tracker s"
    "incoming_event_queue s2 = incoming_event_queue s" "word_cloud s2 = word_cloud s"
    "events s2 = heap"
    unfolding assms(5)
    by (simp_all add: scope_shepherding_frame scope_shepherding_mods logmsg_def)
  have fr3: "delivered s3 = delivered s" "mods s3 = mods s"
    "outgoing_dup_tracker s3 = outgoing_dup_tracker s"
    unfolding assms(6) using fr2
    by (simp_all add: run_callback_frame split: option.splits)
  have std: "success_then_distribute sc s2 ev kw = distribute_event sc s3 ev"
    unfolding assms(6) by (simp add: success_then_distribute_def split: option.splits)
  have eq: "emit_event_slow sc s ev kw =
     logmsg Debug (EmitFinished ev)
       (if truthy result then logmsg Verbose (NotRaising ev reason) s2
        else distribute_event sc s3 ev)"
    unfolding emit_event_slow_abort [OF assms(1-4)] assms(7,8) std [symmetric] assms(5)
    by (auto split: sum.splits option.splits)
  have veto: "emit_event_slow sc s ev kw =
          logmsg Debug (EmitFinished ev) (logmsg Verbose (NotRaising ev reason) s2) \<and>
        delivered (emit_event_slow sc s ev kw) = delivered s \<and>
        incoming_event_queue (emit_event_slow sc s ev kw) = incoming_event_queue s \<and>
        word_cloud (emit_event_slow sc s ev kw) = word_cloud s \<and>
        events (emit_event_slow sc s ev kw) = heap"
    if "truthy result"
    unfolding eq using that by (simp add: logmsg_def fr2)
  have go: "emit_event_slow sc s ev kw =
          logmsg Debug (EmitFinished ev) (distribute_event sc s3 ev)"
    if "\<not> truthy result"
    unfolding eq using that by simp
  have dl: "delivered (emit_event_slow sc s ev kw) =
             delivered s @ map (\<lambda>m. (m, ev))
               (filter (\<lambda>m. \<not> hook (mods s m) \<and>
                  (hash_event sc (events s3 ev) \<notin> outgoing_dup_tracker s \<or>
                   accept_dupes (mods s m) \<or>
                   is_graph_important (mods s m) (events (distribute_event sc s3 ev) ev)))
                (modules sc))"
    if "\<not> truthy result" "source (events s3 ev) = Some src" "source (events s3 src) \<noteq> None"
    for src
    unfolding go [OF that(1)]
    using distribute_event_delivered_src [OF that(2) that(3), of sc]
    by (simp add: logmsg_def fr3)
  have r1: "(\<exists>x. r = Inl x) \<longrightarrow> \<not> truthy result"
    unfolding assms(7) by auto
  have r2: "\<forall>a b. r = Inr (PyTuple [a, b]) \<longrightarrow> result = a \<and> reason = Some b"
    unfolding assms(7,8) by auto
  have r3: "\<forall>v. r = Inr v \<and> unpack_pair v = None \<longrightarrow> result = v \<and> reason = None"
    unfolding assms(7,8) by auto
  from veto go dl r1 r2 r3 show ?thesis by blast
qed

text \<open>
  Event 8 in the concrete scan. With an \<^verbatim>\<open>abort_if\<close> that returns
  \<^verbatim>\<open>(True, "user policy")\<close> nothing is delivered and the verbose message carries the
  reason; with one that raises, and with one that returns \<^verbatim>\<open>(False, "fine")\<close>, the event
  is delivered to the three non-hook modules.
\<close>

theorem abort_if_semantics_witness:
  "\<not> blacklisted ex_scan (events ex_state 8) \<and> ''blacklisted'' \<notin> tags (events ex_state 8) \<and>
   delivered (emit_event_slow ex_scan ex_state 8 ex_kwargs) = [] \<and>
   log (emit_event_slow ex_scan ex_state 8 ex_kwargs) =
     [(Debug, Emitting 8), (Verbose, NotRaising 8 (Some (PyStr ''user policy''))),
      (Debug, EmitFinished 8)] \<and>
   delivered (emit_event_slow ex_scan ex_state 8 (no_kwargs\<lparr>abort_if := Some ex_abort_raises\<rparr>)) =
     [(1, 8), (2, 8), (3, 8)] \<and>
   delivered (emit_event_slow ex_scan ex_state 8 (no_kwargs\<lparr>abort_if := Some ex_abort_allows\<rparr>)) =
     [(1, 8), (2, 8), (3, 8)]"
proof -
  let ?s1 = "scope_shepherding ex_scan (logmsg Debug (Emitting 8) ex_state) 8"
  let ?s2 = "?s1\<lparr>events := events ex_state\<rparr>"
  have h1: "\<not> blacklisted ex_scan (events ex_state 8)"
    and h2: "''blacklisted'' \<notin> tags (events ex_state 8)"
    by (simp_all add: ex_defs)
  have s1: "?s1 = logmsg Debug (Emitting 8) ex_state"
    by (simp add: scope_shepherding_def truthy_host_def Let_def logmsg_def ex_defs)
  have hp: "events ?s1 = events ex_state"
    unfolding s1 by (simp add: logmsg_def)
  have s2: "?s2 = logmsg Debug (Emitting 8) ex_state"
    unfolding s1 by (simp add: logmsg_def)
  have l: "log ex_state = []" "delivered ex_state = []" "outgoing_dup_tracker ex_state = {}"
    by (simp_all add: ex_defs)
  have src: "source (events ?s2 8) = Some 1" "source (events ?s2 1) \<noteq> None"
    unfolding s2 by (simp_all add: logmsg_def ex_defs)
  have f': "filter (\<lambda>m. \<not> hook (mods ex_state m)) (modules ex_scan) = [1, 2, 3]"
    by (simp add: ex_defs)
  \<comment> \<open>the veto\<close>
  have k1: "abort_if ex_kwargs = Some ex_abort_if"
    by (simp add: ex_kwargs_def no_kwargs_def)
  have c1: "ex_abort_if (events ?s1) 8 =
     (events ex_state, Inr (PyTuple [PyBool True, PyStr ''user policy'']))"
    unfolding hp by (simp add: ex_abort_if_def)
  have v: "emit_event_slow ex_scan ex_state 8 ex_kwargs =
          logmsg Debug (EmitFinished 8)
            (logmsg Verbose (NotRaising 8 (Some (PyStr ''user policy''))) ?s2)"
    using abort_if_semantics [OF h1 h2 k1 c1 refl refl refl refl, THEN conjunct1]
    by simp
  have v1: "delivered (emit_event_slow ex_scan ex_state 8 ex_kwargs) = []"
    and v2: "log (emit_event_slow ex_scan ex_state 8 ex_kwargs) =
     [(Debug, Emitting 8), (Verbose, NotRaising 8 (Some (PyStr ''user policy''))),
      (Debug, EmitFinished 8)]"
    unfolding v s2 by (simp_all add: logmsg_def l)
  \<comment> \<open>the exception\<close>
  have k2: "abort_if (no_kwargs\<lparr>abort_if := Some ex_abort_raises\<rparr>) = Some ex_abort_raises"
    "on_success_callback (no_kwargs\<lparr>abort_if := Some ex_abort_raises\<rparr>) = None"
    by (simp_all add: no_kwargs_def)
  have c2: "ex_abort_raises (events ?s1) 8 = (events ex_state, Inl (OtherError ''RuntimeError''))"
    unfolding hp by (simp add: ex_abort_raises_def)
  have e: "delivered (emit_event_slow ex_scan ex_state 8
              (no_kwargs\<lparr>abort_if := Some ex_abort_raises\<rparr>)) = [(1, 8), (2, 8), (3, 8)]"
    using abort_if_semantics [OF h1 h2 k2(1) c2 refl refl refl refl, THEN conjunct2,
        THEN conjunct1] src
    unfolding k2(2)
    apply (simp add: l)
    apply (elim conjE)
    apply (simp add: f')
    done
  \<comment> \<open>the answer that does not veto\<close>
  have k3: "abort_if (no_kwargs\<lparr>abort_if := Some ex_abort_allows\<rparr>) = Some ex_abort_allows"
    "on_success_callback (no_kwargs\<lparr>abort_if := Some ex_abort_allows\<rparr>) = None"
    by (simp_all add: no_kwargs_def)
  have c3: "ex_abort_allows (events ?s1) 8 =
     (events ex_state, Inr (PyTuple [PyBool False, PyStr ''fine'']))"
    unfolding hp by (simp add: ex_abort_allows_def)
  have a: "delivered (emit_event_slow ex_scan ex_state 8
              (no_kwargs\<lparr>abort_if := Some ex_abort_allows\<rparr>)) = [(1, 8), (2, 8), (3, 8)]"
    using abort_if_semantics [OF h1 h2 k3(1) c3 refl refl refl refl, THEN conjunct2,
        THEN conjunct1] src
    unfolding k3(2)
    apply (simp add: l)
    apply (elim conjE)
    apply (simp add: f')
    done
  from h1 h2 v1 v2 e a show ?thesis by simp
qed

subsection \<open>C10: the re-queueing of a promoted source goes through queue\_event\<close>

text \<open>
  Claim C10, amended: when the promotion step re-queues the source \<open>src\<close> (internal, not
  yet graph-important, with source \<open>g\<close>), the step is a call of \<^verbatim>\<open>queue_event\<close> on the
  marked source. So at the end of \<^verbatim>\<open>distribute_event\<close> the \<^verbatim>\<open>module_priority\<close> of
  \<open>src\<close> is what the setter stores for the sum of its priority and its distance, if that
  distance was greater than 0 and \<open>src\<close> is not both whitelisted and un-blacklisted, and
  the distance of \<open>g\<close> plus 1 has been assigned to the scope distance of \<open>src\<close> through
  the setter. With a setter that only lowers, the distance of \<open>src\<close> afterwards is that
  of \<open>g\<close> plus 1 if it was not set and the smaller of the two otherwise; a distance that
  was set is never raised, so the distance that the promotion was decided on is not
  replaced by a larger one.
\<close>

theorem requeue_mutates_promoted_source:
  assumes "source (events s ev) = Some src"
    and "internal (events (report_distance_internalization sc s ev) src)"
    and "\<not> internal (events (report_distance_internalization sc s ev) ev) \<or>
         graph_important (events (report_distance_internalization sc s ev) ev)"
    and "\<not> graph_important (events (report_distance_internalization sc s ev) src)"
    and "source (events s src) = Some g"
  shows "ancestor_promotion sc (report_distance_internalization sc s ev) ev =
       queue_event sc
         (logmsg Debug (Requeuing src ev)
            (upd_event src (\<lambda>e. e\<lparr>internal := (scope_report_distance sc < scope_distance e),
                                   graph_important := True\<rparr>)
               (report_distance_internalization sc s ev)))
         (Some src) no_kwargs \<and>
     module_priority (events (distribute_event sc s ev) src) =
       (if 0 < scope_distance (events s src) \<and>
           \<not> (whitelisted sc ((events s src)\<lparr>internal :=
                   (scope_report_distance sc < scope_distance (events s src)),
                   graph_important := True\<rparr>) \<and>
              \<not> blacklisted sc ((events s src)\<lparr>internal :=
                   (scope_report_distance sc < scope_distance (events s src)),
                   graph_important := True\<rparr>))
        then module_priority_setter sc
               (module_priority (events s src) + scope_distance (events s src))
        else module_priority (events s src)) \<and>
     (scope_distance_only_lowers sc \<and> - 1 \<le> scope_distance (events s src) \<and>
      - 1 \<le> scope_distance (events s g) \<longrightarrow>
        scope_distance (events (distribute_event sc s ev) src) =
          (if scope_distance (events s src) = - 1 then scope_distance (events s g) + 1
           else min (scope_distance (events s src)) (scope_distance (events s g) + 1))) \<and>
     (scope_distance_only_lowers sc \<and> 0 \<le> scope_distance (events s src) \<longrightarrow>
        0 \<le> scope_distance (events (distribute_event sc s ev) src) \<and>
        scope_distance (events (distribute_event sc s ev) src) \<le> scope_distance (events s src))"
proof -
  let ?s1 = "report_distance_internalization sc s ev"
  have src: "source (events ?s1 ev) = Some src"
    using assms(1) by (simp add: rdi_source)
  have g: "source (events ?s1 src) = Some g"
    using assms(5) by (simp add: rdi_source)
  have ne: "src \<noteq> ev"
    using assms(2,3,4) by auto
  then have same: "events ?s1 src = events s src"
    by (simp add: rdi_events)
  have sd: "scope_distance (events ?s1 r) = scope_distance (events s r)" for r
    by (simp add: rdi_events)
  have a: "ancestor_promotion sc ?s1 ev =
       queue_event sc
         (logmsg Debug (Requeuing src ev)
            (upd_event src (\<lambda>e. e\<lparr>internal := (scope_report_distance sc < scope_distance e),
                                   graph_important := True\<rparr>) ?s1))
         (Some src) no_kwargs"
    by (rule ap_requeue [OF src assms(2) assms(3) assms(4)])
  have b: "module_priority (events (distribute_event sc s ev) src) =
       (if 0 < scope_distance (events s src) \<and>
           \<not> (whitelisted sc ((events s src)\<lparr>internal :=
                   (scope_report_distance sc < scope_distance (events s src)),
                   graph_important := True\<rparr>) \<and>
              \<not> blacklisted sc ((events s src)\<lparr>internal :=
                   (scope_report_distance sc < scope_distance (events s src)),
                   graph_important := True\<rparr>))
        then module_priority_setter sc
               (module_priority (events s src) + scope_distance (events s src))
        else module_priority (events s src))"
    using ap_requeue_module_priority [OF src assms(2) assms(3) assms(4) g, of sc]
    unfolding distribute_event_events same by auto
  have c: "scope_distance (events (distribute_event sc s ev) src) =
          (if scope_distance (events s src) = - 1 then scope_distance (events s g) + 1
           else min (scope_distance (events s src)) (scope_distance (events s g) + 1))"
    if "scope_distance_only_lowers sc" "- 1 \<le> scope_distance (events s src)"
      "- 1 \<le> scope_distance (events s g)"
    using ap_requeue_scope_distance [OF src assms(2) assms(3) assms(4) g that(1), unfolded sd,
        OF that(2) that(3)]
    by (simp add: distribute_event_events)
  have d: "0 \<le> scope_distance (events (distribute_event sc s ev) src) \<and>
        scope_distance (events (distribute_event sc s ev) src) \<le> scope_distance (events s src)"
    if "scope_distance_only_lowers sc" "0 \<le> scope_distance (events s src)"
    using ancestor_promotion_never_raises_distance [OF that(1), of ?s1 src ev] that(2)
    by (simp add: distribute_event_events sd)
  from a b c d show ?thesis by blast
qed

text \<open>
  In the concrete scan, distributing event 12 re-queues its source 11 (distance 1,
  priority 5, its own source at distance 0): priority 5 and distance 1 afterwards.
\<close>

theorem requeue_mutates_promoted_source_witness:
  "source (events ex_state 12) = Some 11 \<and> source (events ex_state 11) = Some 0 \<and>
   scope_distance_only_lowers ex_scan \<and>
   scope_distance (events ex_state 11) = 1 \<and> module_priority (events ex_state 11) = 5 \<and>
   module_priority (events (distribute_event ex_scan ex_state 12) 11) = 5 \<and>
   scope_distance (events (distribute_event ex_scan ex_state 12) 11) = 1"
proof -
  have h1: "source (events ex_state 12) = Some 11"
    by (simp add: ex_defs)
  have h2: "internal (events (report_distance_internalization ex_scan ex_state 12) 11)"
    by (simp add: rdi_events ex_defs)
  have h3: "\<not> internal (events (report_distance_internalization ex_scan ex_state 12) 12) \<or>
         graph_important (events (report_distance_internalization ex_scan ex_state 12) 12)"
    by (simp add: rdi_events ex_defs)
  have h4: "\<not> graph_important (events (report_distance_internalization ex_scan ex_state 12) 11)"
    by (simp add: rdi_events ex_defs)
  have h5: "source (events ex_state 11) = Some 0"
    by (simp add: ex_defs)
  have v: "scope_distance (events ex_state 11) = 1" "module_priority (events ex_state 11) = 5"
    "scope_distance (events ex_state 0) = 0"
    "\<not> whitelisted ex_scan ((events ex_state 11)\<lparr>internal :=
         (scope_report_distance ex_scan < scope_distance (events ex_state 11)),
         graph_important := True\<rparr>)"
    "module_priority_setter ex_scan 6 = 5"
    by (simp_all add: ex_defs setter_defs)
  have b: "module_priority (events (distribute_event ex_scan ex_state 12) 11) = 5"
    using requeue_mutates_promoted_source [OF h1 h2 h3 h4 h5, THEN conjunct2, THEN conjunct1]
    by (simp add: v)
  have c: "scope_distance (events (distribute_event ex_scan ex_state 12) 11) = 1"
    using requeue_mutates_promoted_source [OF h1 h2 h3 h4 h5, THEN conjunct2, THEN conjunct2,
        THEN conjunct1] ex_scan_only_lowers
    by (simp add: v)
  from h1 h5 ex_scan_only_lowers v(1,2) b c show ?thesis by simp
qed

text \<open>
  The claim as given says that the distance of the promoted source is overwritten with
  the distance of its own source plus 1 and that its priority grows by its distance. In
  the concrete scan, distributing event 10 re-queues its source 9 (whitelisted, at
  distance 0, its own source at distance 0), which keeps distance 0 and not 1;
  distributing event 12 re-queues its source 11 (distance 1, not whitelisted, priority
  5), which keeps priority 5 and not 6.
\<close>

theorem requeue_keeps_lower_distance:
  "source (events ex_state 10) = Some 9 \<and> source (events ex_state 9) = Some 0 \<and>
   (9, no_kwargs) \<in># incoming_event_queue (distribute_event ex_scan ex_state 10) \<and>
   scope_distance (events (distribute_event ex_scan ex_state 10) 9)
     \<noteq> scope_distance (events ex_state 0) + 1 \<and>
   source (events ex_state 12) = Some 11 \<and> source (events ex_state 11) = Some 0 \<and>
   0 < scope_distance (events ex_state 11) \<and> \<not> whitelisted ex_scan (events ex_state 11) \<and>
   (11, no_kwargs) \<in># incoming_event_queue (distribute_event ex_scan ex_state 12) \<and>
   module_priority (events (distribute_event ex_scan ex_state 12) 11)
     \<noteq> module_priority (events ex_state 11) + scope_distance (events ex_state 11)"
proof -
  let ?a = "report_distance_internalization ex_scan ex_state 10"
  let ?b = "report_distance_internalization ex_scan ex_state 12"
  have a1: "source (events ?a 10) = Some 9" "internal (events ?a 9)"
    "\<not> internal (events ?a 10) \<or> graph_important (events ?a 10)"
    "\<not> graph_important (events ?a 9)" "source (events ?a 9) = Some 0"
    "- 1 \<le> scope_distance (events ?a 9)" "- 1 \<le> scope_distance (events ?a 0)"
    "scope_distance (events ?a 9) = 0" "scope_distance (events ?a 0) = 0"
    "incoming_event_queue ?a = {#}"
    by (simp_all add: rdi_events rdi_frame ex_defs)
  have b1: "source (events ?b 12) = Some 11" "internal (events ?b 11)"
    "\<not> internal (events ?b 12) \<or> graph_important (events ?b 12)"
    "\<not> graph_important (events ?b 11)" "source (events ?b 11) = Some 0"
    "incoming_event_queue ?b = {#}"
    by (simp_all add: rdi_events rdi_frame ex_defs)
  have v: "source (events ex_state 10) = Some 9" "source (events ex_state 9) = Some 0"
    "source (events ex_state 12) = Some 11" "source (events ex_state 11) = Some 0"
    "scope_distance (events ex_state 0) = 0" "scope_distance (events ex_state 11) = 1"
    "module_priority (events ex_state 11) = 5" "\<not> whitelisted ex_scan (events ex_state 11)"
    by (simp_all add: ex_defs)
  have w: "scope_distance (events ?b 11) = 1" "module_priority (events ?b 11) = 5"
    "\<not> whitelisted ex_scan ((events ?b 11)\<lparr>internal :=
         (scope_report_distance ex_scan < scope_distance (events ?b 11)),
         graph_important := True\<rparr>)"
    "module_priority_setter ex_scan 6 = 5"
    by (simp_all add: rdi_events ex_defs setter_defs)
  have q9: "incoming_event_queue (distribute_event ex_scan ex_state 10) = {#(9, no_kwargs)#}"
    unfolding distribute_event_queue
    by (simp add: ap_requeue_queue [OF a1(1-5)] a1(10))
  have d9: "scope_distance (events (distribute_event ex_scan ex_state 10) 9) = 0"
    unfolding distribute_event_events
    by (simp add: ap_requeue_scope_distance [OF a1(1-5) ex_scan_only_lowers a1(6,7)] a1(8,9))
  have q11: "incoming_event_queue (distribute_event ex_scan ex_state 12) = {#(11, no_kwargs)#}"
    unfolding distribute_event_queue
    by (simp add: ap_requeue_queue [OF b1(1-5)] b1(6))
  have p11: "module_priority (events (distribute_event ex_scan ex_state 12) 11) = 5"
    unfolding distribute_event_events
    by (simp add: ap_requeue_module_priority [OF b1(1-5)] w)
  from v q9 d9 q11 p11 show ?thesis by simp
qed

end
